theory Spec2Isabelle
  imports Main "HOL-Library.Signed_Division"
begin

unbundle bit_operations_syntax

text \<open>
  Catflake generates snowflakes: integers that pack a timestamp, a worker id, a process id
  and an increment, and takes them apart again. This theory embeds \<open>index.js\<close> and proves
  what its specification claims about it. The file holds two listings of the class; they
  differ in the constructor only (how the ids are reduced), so the constructor is embedded
  twice and every other method once. Line numbers are those of the first listing.
  A method \<open>_name\<close> of the source is \<open>p_name\<close> here.
\<close>

section \<open>JavaScript values used by Catflake\<close>

text \<open>
  The numbers the options hold are modelled as integers; \<open>NaN\<close> stands for the
  result of arithmetic on a value that is not a number (a missing or non-numeric id).
  Integers are exact: the model does not round above \<open>2 ^ 53\<close>.
\<close>

datatype jsnum = Num int | NaN

text \<open>
  The remainder operator \<open>a % b\<close> for an integer \<open>b\<close>: the result takes the sign of the
  dividend (\<open>-1 % 32\<close> is \<open>-1\<close>), and a zero divisor gives \<open>NaN\<close>.
\<close>

definition js_rem :: "jsnum \<Rightarrow> int \<Rightarrow> jsnum" where
  "js_rem a b = (case a of NaN \<Rightarrow> NaN | Num x \<Rightarrow> if b = 0 then NaN else Num (x smod b))"

definition isNaN :: "jsnum \<Rightarrow> bool" where
  "isNaN a = (case a of NaN \<Rightarrow> True | Num x \<Rightarrow> False)"

text \<open>A thrown \<open>Error\<close> carries its message.\<close>

datatype error = Error string

definition InvalidBitWidthConfiguration :: error where
  "InvalidBitWidthConfiguration = Error ''incrementBits, processBits, and workerBits must add up to 22.''"

text \<open>
  Objects: the properties the class declares (\<open>own\<close>), the properties added from outside
  afterwards, and the flag \<open>Object.freeze\<close> sets. An assignment to a property of a frozen
  object, or of a new property to it, leaves the object as it was (silently, or with a
  \<open>TypeError\<close> in strict code).
\<close>

datatype jsvalue = Undefined | Boolean bool | Number jsnum | Text string

record 'a jsobject =
  own :: 'a
  added :: "(string \<times> jsvalue) list"
  frozen :: bool

definition new_object :: "'a \<Rightarrow> 'a jsobject" where
  "new_object x = \<lparr>own = x, added = [], frozen = False\<rparr>"

definition Object_freeze :: "'a jsobject \<Rightarrow> 'a jsobject" where
  "Object_freeze obj = obj\<lparr>frozen := True\<rparr>"

definition assign :: "('a \<Rightarrow> 'a) \<Rightarrow> 'a jsobject \<Rightarrow> 'a jsobject" where
  "assign upd obj = (if frozen obj then obj else obj\<lparr>own := upd (own obj)\<rparr>)"

definition assign_new :: "string \<Rightarrow> jsvalue \<Rightarrow> 'a jsobject \<Rightarrow> 'a jsobject" where
  "assign_new k v obj = (if frozen obj then obj else obj\<lparr>added := (k, v) # added obj\<rparr>)"

definition read_added :: "'a jsobject \<Rightarrow> string \<Rightarrow> jsvalue" where
  "read_added obj k = (case map_of (added obj) k of None \<Rightarrow> Undefined | Some v \<Rightarrow> v)"

section \<open>The big-integer library\<close>

text \<open>
  Catflake computes with the \<open>big-integer\<close> package. Its values are the integers; the
  methods used are modelled by the operations of \<^typ>\<open>int\<close>: \<open>add\<close>, \<open>minus\<close>, \<open>next\<close> are
  \<open>+\<close>, \<open>-\<close>, \<open>+ 1\<close>; \<open>shiftLeft\<close> and \<open>shiftRight\<close> multiply by and divide (rounding down)
  by a power of two; \<open>and\<close> is the two's complement conjunction; \<open>mod\<close> is the remainder
  with the sign of the dividend; \<open>greaterOrEquals\<close> is \<open>\<ge>\<close>.
\<close>

definition shiftLeft :: "int \<Rightarrow> nat \<Rightarrow> int" where
  "shiftLeft x n = push_bit n x"

definition shiftRight :: "int \<Rightarrow> nat \<Rightarrow> int" where
  "shiftRight x n = drop_bit n x"

definition big_mod :: "int \<Rightarrow> int \<Rightarrow> int" where
  "big_mod x n = x smod n"

text \<open>Decimal text, as \<open>toString\<close> writes it and as the library reads it back.\<close>

definition digit_char :: "nat \<Rightarrow> char" where
  "digit_char d = char_of (48 + d)"

fun digits :: "nat \<Rightarrow> string" where
  "digits n = (if n < 10 then [digit_char n] else digits (n div 10) @ [digit_char (n mod 10)])"

declare digits.simps [simp del]

definition toString :: "int \<Rightarrow> string" where
  "toString x = (if x < 0 then CHR ''-'' # digits (nat (- x)) else digits (nat x))"

definition is_digit :: "char \<Rightarrow> bool" where
  "is_digit c = (48 \<le> (of_char c :: nat) \<and> (of_char c :: nat) \<le> 57)"

definition digit_value :: "char \<Rightarrow> nat" where
  "digit_value c = of_char c - 48"

definition from_digits :: "string \<Rightarrow> nat" where
  "from_digits s = foldl (\<lambda>acc c. 10 * acc + digit_value c) 0 s"

text \<open>
  \<open>BigInt(v)\<close> on text. A decimal numeral, an optional minus sign and then one or more
  digits, gives the integer it denotes. The package is not among the sources, and it
  reads more than decimal numerals (it accepts other notations of a number and throws on
  the rest). What it returns for a text that is no decimal numeral is the parameter
  \<open>other\<close>, of which nothing is assumed.
\<close>

type_synonym reader = "string \<Rightarrow> error + int"

definition parse_decimal :: "reader \<Rightarrow> string \<Rightarrow> error + int" where
  "parse_decimal other s =
     (case s of
        [] \<Rightarrow> other s
      | c # cs \<Rightarrow>
          if c = CHR ''-'' \<and> cs \<noteq> [] \<and> list_all is_digit cs then Inr (- int (from_digits cs))
          else if list_all is_digit s then Inr (int (from_digits s))
          else other s)"

text \<open>\<open>BigInt(v)\<close> on a number: \<open>NaN\<close> is not an integer, and the library throws.\<close>

definition bigInt_number :: "jsnum \<Rightarrow> error + int" where
  "bigInt_number v = (case v of NaN \<Rightarrow> Inl (Error ''Invalid integer: NaN'') | Num x \<Rightarrow> Inr x)"

text \<open>
  A snowflake as \<open>generate\<close> returns it and as \<open>deconstruct\<close> accepts it: decimal text,
  a native number (taken as the integer it denotes) or a big integer.
\<close>

datatype snowflake = Str string | Native int | Big int

definition bigInt :: "reader \<Rightarrow> snowflake \<Rightarrow> error + int" where
  "bigInt other v = (case v of Str s \<Rightarrow> parse_decimal other s | Native n \<Rightarrow> Inr n | Big n \<Rightarrow> Inr n)"

section \<open>The wall clock and timers\<close>

text \<open>
  \<open>Date.now()\<close> is an input of the program: \<open>clk k\<close> is what the \<open>k\<close>-th call returns.
  The world counts the calls made and logs every \<open>sleep\<close>.
\<close>

type_synonym clock = "nat \<Rightarrow> int"

record world =
  reads :: nat
  sleeps :: "nat list"

definition Date_now :: "clock \<Rightarrow> world \<Rightarrow> int \<times> world" where
  "Date_now clk w = (clk (reads w), w\<lparr>reads := Suc (reads w)\<rparr>)"

definition sleep :: "nat \<Rightarrow> world \<Rightarrow> world" where
  "sleep time w = w\<lparr>sleeps := sleeps w @ [time]\<rparr>"

section \<open>The Catflake class\<close>

definition getBits :: "nat \<Rightarrow> int" where
  "getBits bits = 2 ^ bits - 1"

text \<open>
  The options object after the defaults and the caller's options are merged. The bit
  widths are natural numbers.
\<close>

record options =
  epoch :: int
  incrementBits :: nat
  processBits :: nat
  workerBits :: nat
  processId :: jsnum
  workerId :: jsnum
  async :: bool
  stringify :: bool

definition default_options :: options where
  "default_options =
     \<lparr>epoch = 1420070400000, incrementBits = 12, processBits = 5, workerBits = 5,
      processId = Num 0, workerId = Num 0, async = False, stringify = True\<rparr>"

text \<open>
  \<open>this.mutable\<close>: the one object of an instance that stays writable. The frozen instance
  keeps the reference to it; the model passes its content along as the state. An entry
  of \<open>locks\<close> stands for the \<open>resolve\<close> callback of a waiting caller's promise.
\<close>

record 'r mutable =
  increment :: int
  lastTimestamp :: int
  locks :: "'r list"
  locked :: bool

text \<open>
  The instance: \<open>this.options\<close>, \<open>this.maxIncrement\<close> and the two shifted ids
  \<open>this.workerId\<close> and \<open>this.processId\<close>.
\<close>

record catflake =
  options :: "options jsobject"
  maxIncrement :: int
  this_workerId :: int
  this_processId :: int

type_synonym Catflake = "catflake jsobject"

definition opts :: "Catflake \<Rightarrow> options" where
  "opts c = own (options (own c))"

text \<open>
  The constructor, as the first listing of \<open>index.js\<close> has it (lines 36 to 74): the ids
  are reduced with \<open>% getBits(bits)\<close>, and nothing replaces a \<open>NaN\<close>.
\<close>

definition constructor1 :: "options \<Rightarrow> clock \<Rightarrow> world \<Rightarrow> error + (Catflake \<times> 'r mutable \<times> world)" where
  "constructor1 given clk w =
     (let (now, w1) = Date_now clk w;
          mutable = \<lparr>increment = 0 - 1, lastTimestamp = now, locks = [], locked = False\<rparr>
      in if incrementBits given + processBits given + workerBits given \<noteq> 22
         then Inl InvalidBitWidthConfiguration
         else
           let pid = js_rem (processId given) (getBits (processBits given));
               wid = js_rem (workerId given) (getBits (workerBits given));
               this_options = given\<lparr>processId := pid, workerId := wid\<rparr>
           in case bigInt_number wid of
                Inl e \<Rightarrow> Inl e
              | Inr bw \<Rightarrow>
                 (case bigInt_number pid of
                    Inl e \<Rightarrow> Inl e
                  | Inr bp \<Rightarrow>
                      Inr (Object_freeze (new_object
                             \<lparr>options = Object_freeze (new_object this_options),
                              maxIncrement = 2 ^ incrementBits given,
                              this_workerId = shiftLeft bw (incrementBits given + processBits given),
                              this_processId = shiftLeft bp (incrementBits given)\<rparr>),
                           mutable, w1)))"

text \<open>
  The constructor of the second listing (lines 240 to 282): the ids are reduced with
  \<open>% (2 ** bits)\<close>, and a \<open>NaN\<close> becomes 0.
\<close>

definition constructor2 :: "options \<Rightarrow> clock \<Rightarrow> world \<Rightarrow> error + (Catflake \<times> 'r mutable \<times> world)" where
  "constructor2 given clk w =
     (let (now, w1) = Date_now clk w;
          mutable = \<lparr>increment = 0 - 1, lastTimestamp = now, locks = [], locked = False\<rparr>
      in if incrementBits given + processBits given + workerBits given \<noteq> 22
         then Inl InvalidBitWidthConfiguration
         else
           let pid = js_rem (processId given) (2 ^ processBits given);
               wid = js_rem (workerId given) (2 ^ workerBits given);
               pid = (if isNaN pid then Num 0 else pid);
               wid = (if isNaN wid then Num 0 else wid);
               this_options = given\<lparr>processId := pid, workerId := wid\<rparr>
           in case bigInt_number wid of
                Inl e \<Rightarrow> Inl e
              | Inr bw \<Rightarrow>
                 (case bigInt_number pid of
                    Inl e \<Rightarrow> Inl e
                  | Inr bp \<Rightarrow>
                      Inr (Object_freeze (new_object
                             \<lparr>options = Object_freeze (new_object this_options),
                              maxIncrement = 2 ^ incrementBits given,
                              this_workerId = shiftLeft bw (incrementBits given + processBits given),
                              this_processId = shiftLeft bp (incrementBits given)\<rparr>),
                           mutable, w1)))"

text \<open>The getter \<open>increment\<close>: it stores and returns the next increment.\<close>

definition get_increment :: "Catflake \<Rightarrow> 'r mutable \<Rightarrow> int \<times> 'r mutable" where
  "get_increment c m =
     (let i = big_mod (increment m + 1) (maxIncrement (own c)) in (i, m\<lparr>increment := i\<rparr>))"

text \<open>
  \<open>_generate(date, increment)\<close>. A missing or zero \<open>date\<close> is falsy, so the clock is read
  instead; a big integer passed as \<open>increment\<close> is an object and so always taken.
  \<open>pack\<close> is the chain of \<open>minus\<close>, \<open>shiftLeft\<close> and \<open>add\<close> calls.
\<close>

definition pack :: "Catflake \<Rightarrow> int \<Rightarrow> int \<Rightarrow> int" where
  "pack c t i = shiftLeft (t - epoch (opts c)) 22 + this_workerId (own c) + this_processId (own c) + i"

definition p_generate ::
  "Catflake \<Rightarrow> int option \<Rightarrow> int option \<Rightarrow> clock \<Rightarrow> 'r mutable \<times> world \<Rightarrow> snowflake \<times> 'r mutable \<times> world" where
  "p_generate c date incr clk s =
     (let (m, w) = s;
          (t, w1) = (case date of
                       None \<Rightarrow> Date_now clk w
                     | Some d \<Rightarrow> if d \<noteq> 0 then (d, w) else Date_now clk w);
          (i, m1) = (case incr of None \<Rightarrow> get_increment c m | Some j \<Rightarrow> (j, m));
          flake = pack c t i
      in (if stringify (opts c) then Str (toString flake) else Big flake, m1, w1))"

text \<open>
  \<open>_lock\<close> and \<open>_unlock\<close>. \<open>res\<close> is the resolve callback of the promise \<open>_lock\<close> would
  create; \<open>Some res\<close> is that promise returned, \<open>None\<close> is \<open>undefined\<close>. \<open>_unlock\<close> returns
  the callback it called, if any.
\<close>

definition p_lock :: "'r \<Rightarrow> 'r mutable \<Rightarrow> 'r option \<times> 'r mutable" where
  "p_lock res m =
     (if locked m then (Some res, m\<lparr>locks := locks m @ [res]\<rparr>)
      else (None, m\<lparr>locked := True\<rparr>))"

definition p_unlock :: "'r mutable \<Rightarrow> 'r option \<times> 'r mutable" where
  "p_unlock m =
     (case locks m of
        r # rs \<Rightarrow> (Some r, m\<lparr>locks := rs\<rparr>)
      | [] \<Rightarrow> (None, m\<lparr>locked := False\<rparr>))"

text \<open>
  \<open>_generateAsync\<close> runs in stretches between its \<open>await\<close>s. A stretch ends with the
  promise fulfilled (the snowflake, and the waiter \<open>_unlock\<close> woke), or suspended at
  \<open>await lock\<close>, or suspended at \<open>await sleep(2)\<close>.
\<close>

datatype 'r progress = Fulfilled snowflake "'r option" | AwaitLock | AwaitSleep nat

text \<open>Lines 144 to 147: pack with the given timestamp and the stored increment, unlock.\<close>

definition generateAsync_finish ::
  "Catflake \<Rightarrow> clock \<Rightarrow> int \<Rightarrow> 'r mutable \<times> world \<Rightarrow> 'r progress \<times> 'r mutable \<times> world" where
  "generateAsync_finish c clk now s =
     (let (flake, m1, w1) = p_generate c (Some now) (Some (increment (fst s))) clk s;
          (woken, m2) = p_unlock m1
      in (Fulfilled flake woken, m2, w1))"

text \<open>Lines 125 to 137 (and on to 147 when there is no sleep): the lock is held.\<close>

definition generateAsync_locked ::
  "Catflake \<Rightarrow> clock \<Rightarrow> 'r mutable \<times> world \<Rightarrow> 'r progress \<times> 'r mutable \<times> world" where
  "generateAsync_locked c clk s =
     (let (m, w) = s;
          (now, w1) = Date_now clk w
      in if lastTimestamp m \<noteq> now
         then generateAsync_finish c clk now (m\<lparr>lastTimestamp := now, increment := 0\<rparr>, w1)
         else
           let m1 = m\<lparr>increment := increment m + 1\<rparr>
           in if increment m1 \<ge> maxIncrement (own c)
              then (AwaitSleep 2, m1, sleep 2 w1)
              else generateAsync_finish c clk now (m1, w1))"

text \<open>Lines 138 to 147: the stretch after the sleep.\<close>

definition generateAsync_slept ::
  "Catflake \<Rightarrow> clock \<Rightarrow> 'r mutable \<times> world \<Rightarrow> 'r progress \<times> 'r mutable \<times> world" where
  "generateAsync_slept c clk s =
     (let (m, w) = s;
          (now, w1) = Date_now clk w
      in generateAsync_finish c clk now (m\<lparr>lastTimestamp := now, increment := 0\<rparr>, w1))"

text \<open>Lines 123 and 124, then on without a pause when \<open>_lock\<close> returned nothing.\<close>

definition generateAsync_start ::
  "Catflake \<Rightarrow> clock \<Rightarrow> 'r \<Rightarrow> 'r mutable \<times> world \<Rightarrow> 'r progress \<times> 'r mutable \<times> world" where
  "generateAsync_start c clk res s =
     (let (m, w) = s;
          (lock, m1) = p_lock res m
      in case lock of
           Some r \<Rightarrow> (AwaitLock, m1, w)
         | None \<Rightarrow> generateAsync_locked c clk (m1, w))"

text \<open>
  The critical section of one call, from the lock being held to the return. While the
  call sleeps the lock stays held, so the callers arriving meanwhile (\<open>arrivals\<close>) each
  run \<open>_lock\<close> and are queued; nothing else touches the state.
\<close>

definition arrive :: "'r list \<Rightarrow> 'r mutable \<Rightarrow> 'r mutable" where
  "arrive arrivals m = fold (\<lambda>r m. snd (p_lock r m)) arrivals m"

definition critical_section ::
  "Catflake \<Rightarrow> clock \<Rightarrow> 'r list \<Rightarrow> 'r mutable \<times> world \<Rightarrow> 'r progress \<times> 'r mutable \<times> world" where
  "critical_section c clk arrivals s =
     (case generateAsync_locked c clk s of
        (AwaitSleep d, m1, w1) \<Rightarrow> generateAsync_slept c clk (arrive arrivals m1, w1)
      | r \<Rightarrow> r)"

text \<open>
  \<open>generate\<close>: the snowflake itself in sequential mode, a promise in concurrent mode
  (here: how far \<open>_generateAsync\<close> got before it first paused or returned).
\<close>

datatype 'r generated = Plain snowflake | Promise "'r progress"

definition generate ::
  "Catflake \<Rightarrow> clock \<Rightarrow> 'r \<Rightarrow> 'r mutable \<times> world \<Rightarrow> 'r generated \<times> 'r mutable \<times> world" where
  "generate c clk res s =
     (if async (opts c)
      then (let (p, s1) = generateAsync_start c clk res s in (Promise p, s1))
      else (let (flake, s1) = p_generate c None None clk s in (Plain flake, s1)))"

text \<open>
  \<open>deconstruct\<close>. The method's one argument is the snowflake; the argument \<open>other\<close> here
  is what the library makes of a text that is no decimal numeral (see \<open>parse_decimal\<close>).
\<close>

record deconstructed =
  timestamp :: int
  d_workerId :: int
  d_processId :: int
  d_increment :: int

definition deconstruct :: "reader \<Rightarrow> Catflake \<Rightarrow> snowflake \<Rightarrow> error + deconstructed" where
  "deconstruct other c snowflake =
     (case bigInt other snowflake of
        Inl e \<Rightarrow> Inl e
      | Inr flake \<Rightarrow>
          let timestamp = shiftRight flake 22 + epoch (opts c);
              wBitShift = incrementBits (opts c) + processBits (opts c);
              workerId = shiftRight (flake AND shiftLeft (getBits (workerBits (opts c))) wBitShift) wBitShift;
              processId = shiftRight (flake AND shiftLeft (getBits (processBits (opts c))) (incrementBits (opts c)))
                            (incrementBits (opts c));
              increment = flake AND getBits (incrementBits (opts c))
          in Inr \<lparr>timestamp = timestamp, d_workerId = workerId, d_processId = processId,
                  d_increment = increment\<rparr>)"

section \<open>Writes from outside\<close>

text \<open>
  What a caller can try on a constructed instance: assign to one of its properties, add a
  property to it, or do either to the options object it reaches through
  \<open>catflake.options\<close>. The freeze is shallow, so a write through \<open>options\<close> is decided
  by the options object's own flag.
\<close>

datatype tamper =
  SetOwn "catflake \<Rightarrow> catflake" | AddOwn string jsvalue
| SetOption "options \<Rightarrow> options" | AddOption string jsvalue

definition through_options :: "(options jsobject \<Rightarrow> options jsobject) \<Rightarrow> Catflake \<Rightarrow> Catflake" where
  "through_options f c = c\<lparr>own := (own c)\<lparr>options := f (options (own c))\<rparr>\<rparr>"

fun tampered :: "tamper \<Rightarrow> Catflake \<Rightarrow> Catflake" where
  "tampered (SetOwn upd) c = assign upd c"
| "tampered (AddOwn k v) c = assign_new k v c"
| "tampered (SetOption upd) c = through_options (assign upd) c"
| "tampered (AddOption k v) c = through_options (assign_new k v) c"

text \<open>\<open>n\<close> calls of \<open>_unlock\<close> in a row, with the callbacks they called.\<close>

fun releases :: "nat \<Rightarrow> 'r mutable \<Rightarrow> 'r option list \<times> 'r mutable" where
  "releases 0 m = ([], m)"
| "releases (Suc n) m =
     (let (r, m1) = p_unlock m; (rs, m2) = releases n m1 in (r # rs, m2))"

section \<open>The event loop\<close>

text \<open>
  JavaScript runs one stretch of code at a time. The state of the loop is the instance's
  mutable object and the world, the call suspended in its sleep (\<open>sleeping\<close>), the call
  whose lock promise \<open>_unlock\<close> has resolved and that has not run on yet (\<open>granted\<close>), and
  the snowflakes returned so far, each with its caller. An event is a new call of
  \<open>generate\<close>, the timer of the sleep firing, or the granted call running on. A timer or
  a continuation with nobody waiting for it does nothing.
\<close>

record 'r loop =
  mstate :: "'r mutable"
  wstate :: world
  sleeping :: "'r option"
  granted :: "'r option"
  returned :: "('r \<times> snowflake) list"

datatype 'r event = Call 'r | Timer | Continue

definition settle :: "'r \<Rightarrow> 'r progress \<times> 'r mutable \<times> world \<Rightarrow> 'r loop \<Rightarrow> 'r loop" where
  "settle r out l =
     (case out of
        (Fulfilled f woken, m, w) \<Rightarrow>
          l\<lparr>mstate := m, wstate := w, sleeping := None, granted := woken,
            returned := returned l @ [(r, f)]\<rparr>
      | (AwaitLock, m, w) \<Rightarrow> l\<lparr>mstate := m, wstate := w\<rparr>
      | (AwaitSleep d, m, w) \<Rightarrow> l\<lparr>mstate := m, wstate := w, sleeping := Some r, granted := None\<rparr>)"

fun step :: "Catflake \<Rightarrow> clock \<Rightarrow> 'r event \<Rightarrow> 'r loop \<Rightarrow> 'r loop" where
  "step c clk (Call r) l =
     (case generate c clk r (mstate l, wstate l) of
        (Plain f, m, w) \<Rightarrow> l\<lparr>mstate := m, wstate := w, returned := returned l @ [(r, f)]\<rparr>
      | (Promise p, m, w) \<Rightarrow> settle r (p, m, w) l)"
| "step c clk Timer l =
     (case sleeping l of
        None \<Rightarrow> l
      | Some r \<Rightarrow> settle r (generateAsync_slept c clk (mstate l, wstate l)) l)"
| "step c clk Continue l =
     (case granted l of
        None \<Rightarrow> l
      | Some r \<Rightarrow> settle r (generateAsync_locked c clk (mstate l, wstate l)) l)"

definition run :: "Catflake \<Rightarrow> clock \<Rightarrow> 'r event list \<Rightarrow> 'r loop \<Rightarrow> 'r loop" where
  "run c clk evs l = fold (step c clk) evs l"

text \<open>The loop right after construction, and the callers of a list of events.\<close>

definition started :: "'r mutable \<Rightarrow> world \<Rightarrow> 'r loop" where
  "started m w = \<lparr>mstate = m, wstate = w, sleeping = None, granted = None, returned = []\<rparr>"

fun callers :: "'r event list \<Rightarrow> 'r list" where
  "callers [] = []"
| "callers (Call r # evs) = r # callers evs"
| "callers (e # evs) = callers evs"

section \<open>Notions used in the statements\<close>

text \<open>
  An instance as the constructors leave it, with \<open>p\<close> and \<open>q\<close> the process id and the worker
  id it stores.
\<close>

definition built :: "Catflake \<Rightarrow> int \<Rightarrow> int \<Rightarrow> bool" where
  "built c p q =
     (processId (opts c) = Num p \<and> workerId (opts c) = Num q \<and>
      this_processId (own c) = shiftLeft p (incrementBits (opts c)) \<and>
      this_workerId (own c) = shiftLeft q (incrementBits (opts c) + processBits (opts c)) \<and>
      maxIncrement (own c) = 2 ^ incrementBits (opts c) \<and>
      incrementBits (opts c) + processBits (opts c) + workerBits (opts c) = 22)"

text \<open>
  The stored increment between two calls: the seed \<open>-1\<close>, or a value that fits its field.
\<close>

definition increment_ok :: "Catflake \<Rightarrow> 'r mutable \<Rightarrow> bool" where
  "increment_ok c m = (- 1 \<le> increment m \<and> increment m < maxIncrement (own c))"

text \<open>
  The values of \<open>date || Date.now()\<close> and of \<open>increment || this.increment\<close> in a call of
  \<open>_generate\<close>.
\<close>

definition date_or_now :: "int option \<Rightarrow> clock \<Rightarrow> world \<Rightarrow> int" where
  "date_or_now date clk w =
     (case date of None \<Rightarrow> clk (reads w) | Some d \<Rightarrow> if d \<noteq> 0 then d else clk (reads w))"

definition increment_or_next :: "int option \<Rightarrow> Catflake \<Rightarrow> 'r mutable \<Rightarrow> int" where
  "increment_or_next incr c m =
     (case incr of None \<Rightarrow> big_mod (increment m + 1) (maxIncrement (own c)) | Some j \<Rightarrow> j)"

text \<open>
  The call that holds the lock, and the order of service: the callers already served,
  then the holder, then the queue.
\<close>

definition holder :: "'r loop \<Rightarrow> 'r list" where
  "holder l = (case sleeping l of Some r \<Rightarrow> [r] | None \<Rightarrow> (case granted l of Some r \<Rightarrow> [r] | None \<Rightarrow> []))"

definition service_order :: "'r loop \<Rightarrow> 'r list" where
  "service_order l = map fst (returned l) @ holder l @ locks (mstate l)"

text \<open>
  The lock is held exactly when one call is inside the critical section (asleep, or
  granted the lock and about to run on); the queue is empty while the lock is free; and
  sequential mode never takes the lock.
\<close>

definition exclusive :: "Catflake \<Rightarrow> 'r loop \<Rightarrow> bool" where
  "exclusive c l =
     (locked (mstate l) = (sleeping l \<noteq> None \<or> granted l \<noteq> None)
      \<and> (sleeping l = None \<or> granted l = None)
      \<and> (locked (mstate l) \<or> locks (mstate l) = [])
      \<and> (async (opts c) \<or> \<not> locked (mstate l)))"

text \<open>
  The stored increment fits between calls, and is \<open>2 ^ incrementBits\<close> while a call sleeps.
\<close>

definition steady :: "Catflake \<Rightarrow> 'r loop \<Rightarrow> bool" where
  "steady c l =
     (if sleeping l = None then increment_ok c (mstate l)
      else increment (mstate l) = maxIncrement (own c))"

text \<open>
  A snowflake whose increment fits its field: with the two shifted ids taken out, what
  is left of the low 22 bits is below \<open>2 ^ incrementBits\<close>.
\<close>

definition fits :: "reader \<Rightarrow> Catflake \<Rightarrow> snowflake \<Rightarrow> bool" where
  "fits other c f =
     (case bigInt other f of
        Inl e \<Rightarrow> False
      | Inr x \<Rightarrow> take_bit 22 (x - this_workerId (own c) - this_processId (own c))
                  < 2 ^ incrementBits (opts c))"

text \<open>
  A concrete run for the examples: a clock that starts at 1514790000000 and advances one
  millisecond per reading, and the instance the constructors build from given options
  once the ids are reduced to \<open>p\<close> and \<open>q\<close>.
\<close>

definition example_clock :: clock where
  "example_clock k = 1514790000000 + int k"

definition example_world :: world where
  "example_world = \<lparr>reads = 0, sleeps = []\<rparr>"

definition example_instance :: "options \<Rightarrow> int \<Rightarrow> int \<Rightarrow> Catflake" where
  "example_instance given p q =
     \<lparr>own = \<lparr>options = \<lparr>own = given\<lparr>processId := Num p, workerId := Num q\<rparr>, added = [], frozen = True\<rparr>,
             maxIncrement = 2 ^ incrementBits given,
             this_workerId = q * 2 ^ (incrementBits given + processBits given),
             this_processId = p * 2 ^ incrementBits given\<rparr>,
      added = [], frozen = True\<rparr>"

definition example_mutable :: "nat mutable" where
  "example_mutable = \<lparr>increment = - 1, lastTimestamp = 1514790000000, locks = [], locked = False\<rparr>"

text \<open>
  A second run: no increment bits, so that the second call within a millisecond has to
  sleep, and a clock that advances every third reading.
\<close>

definition slow_clock :: clock where
  "slow_clock k = 1514790000000 + int (k div 3)"

definition narrow_options :: options where
  "narrow_options = default_options\<lparr>incrementBits := 0, processBits := 11, workerBits := 11,
     async := True, stringify := False\<rparr>"

text \<open>A clock that stands still.\<close>

definition stalled_clock :: clock where
  "stalled_clock k = 1514790000000"

section \<open>Basic facts\<close>

lemma getBits_mask: "getBits n = mask n"
  by (simp add: getBits_def mask_eq_exp_minus_1)

subsection \<open>Decimal text\<close>

lemma digit_value_digit_char: "d < 10 \<Longrightarrow> digit_value (digit_char d) = d"
  by (simp add: digit_value_def digit_char_def)

lemma is_digit_digit_char: "d < 10 \<Longrightarrow> is_digit (digit_char d)"
  by (simp add: is_digit_def digit_char_def)

lemma digits_not_Nil: "digits n \<noteq> []"
  by (subst digits.simps) simp

lemma list_all_digits: "list_all is_digit (digits n)"
proof (induction n rule: digits.induct)
  case (1 n)
  show ?case
  proof (cases "n < 10")
    case True
    then show ?thesis by (subst digits.simps) (simp add: is_digit_digit_char)
  next
    case False
    with 1 show ?thesis by (subst digits.simps) (simp add: is_digit_digit_char)
  qed
qed

lemma from_digits_snoc: "from_digits (s @ [c]) = 10 * from_digits s + digit_value c"
  by (simp add: from_digits_def)

lemma from_digits_digits: "from_digits (digits n) = n"
proof (induction n rule: digits.induct)
  case (1 n)
  show ?case
  proof (cases "n < 10")
    case True
    then show ?thesis
      by (subst digits.simps) (simp add: from_digits_def digit_value_digit_char)
  next
    case False
    with 1 show ?thesis
      by (subst digits.simps) (simp add: from_digits_snoc digit_value_digit_char)
  qed
qed

lemma minus_not_digit: "\<not> is_digit (CHR ''-'')"
  by (simp add: is_digit_def)

lemma parse_decimal_digits: "parse_decimal other (digits n) = Inr (int n)"
proof -
  obtain c cs where s: "digits n = c # cs"
    using digits_not_Nil [of n] by (cases "digits n") auto
  have all: "list_all is_digit (c # cs)"
    using list_all_digits [of n] by (simp add: s)
  then have "c \<noteq> CHR ''-''"
    using minus_not_digit by auto
  with all show ?thesis
    using from_digits_digits [of n] by (simp add: parse_decimal_def s)
qed

lemma parse_decimal_toString: "parse_decimal other (toString x) = Inr x"
proof (cases "x < 0")
  case True
  then show ?thesis
    using digits_not_Nil [of "nat (- x)"] list_all_digits [of "nat (- x)"]
      from_digits_digits [of "nat (- x)"]
    by (simp add: toString_def parse_decimal_def)
next
  case False
  then show ?thesis by (simp add: toString_def parse_decimal_digits)
qed

lemma bigInt_Str_toString: "bigInt other (Str (toString x)) = Inr x"
  by (simp add: bigInt_def parse_decimal_toString)

subsection \<open>Bit fields\<close>

lemma field_top: "0 \<le> lo \<Longrightarrow> lo < 2 ^ s \<Longrightarrow> drop_bit s (hi * 2 ^ s + lo) = (hi :: int)"
  by (simp add: drop_bit_eq_div)

lemma field_low: "0 \<le> lo \<Longrightarrow> lo < 2 ^ s \<Longrightarrow> take_bit s (hi * 2 ^ s + lo) = (lo :: int)"
  by (simp add: take_bit_eq_mod)

lemma fields_of_sum:
  fixes D q p i :: int
  assumes i: "0 \<le> i" "i < 2 ^ a" and p: "0 \<le> p" "p < 2 ^ b" and q: "0 \<le> q" "q < 2 ^ c"
  defines "x \<equiv> push_bit (a + b + c) D + push_bit (a + b) q + push_bit a p + i"
  shows "drop_bit (a + b + c) x = D"
    and "take_bit c (drop_bit (a + b) x) = q"
    and "take_bit b (drop_bit a x) = p"
    and "take_bit a x = i"
proof -
  have x: "x = ((D * 2 ^ c + q) * 2 ^ b + p) * 2 ^ a + i"
    by (simp add: x_def push_bit_eq_mult power_add algebra_simps)
  show "take_bit a x = i"
    unfolding x using i by (rule field_low)
  have da: "drop_bit a x = (D * 2 ^ c + q) * 2 ^ b + p"
    unfolding x using i by (rule field_top)
  show "take_bit b (drop_bit a x) = p"
    unfolding da using p by (rule field_low)
  have dab: "drop_bit (a + b) x = D * 2 ^ c + q"
    using field_top [OF p, of "D * 2 ^ c + q"] da by (simp add: add.commute [of a b] flip: drop_bit_drop_bit)
  show "take_bit c (drop_bit (a + b) x) = q"
    unfolding dab using q by (rule field_low)
  show "drop_bit (a + b + c) x = D"
    using field_top [OF q, of D] dab by (simp add: add.commute [of "a + b" c] flip: drop_bit_drop_bit)
qed

subsection \<open>What \<open>deconstruct\<close> computes\<close>

lemma deconstruct_value:
  "deconstruct other c (Big x) =
     Inr \<lparr>timestamp = drop_bit 22 x + epoch (opts c),
          d_workerId = take_bit (workerBits (opts c)) (drop_bit (incrementBits (opts c) + processBits (opts c)) x),
          d_processId = take_bit (processBits (opts c)) (drop_bit (incrementBits (opts c)) x),
          d_increment = take_bit (incrementBits (opts c)) x\<rparr>"
  by (simp add: deconstruct_def bigInt_def shiftRight_def shiftLeft_def getBits_mask Let_def
      drop_bit_push_bit take_bit_eq_mask)

lemma deconstruct_bigInt: "bigInt other f = Inr x \<Longrightarrow> deconstruct other c f = deconstruct other c (Big x)"
  by (simp add: deconstruct_def bigInt_def)

lemma example_text: "bigInt other (Str ''397282797158964394'') = Inr 397282797158964394"
  by (simp add: bigInt_def parse_decimal_def is_digit_def from_digits_def digit_value_def)

subsection \<open>What the constructors build\<close>

lemma constructor2_Inr:
  assumes "constructor2 given clk w = Inr (c, m, w1)"
  defines "p \<equiv> (case processId given of NaN \<Rightarrow> 0 | Num x \<Rightarrow> x smod 2 ^ processBits given)"
    and "q \<equiv> (case workerId given of NaN \<Rightarrow> 0 | Num x \<Rightarrow> x smod 2 ^ workerBits given)"
  shows "incrementBits given + processBits given + workerBits given = 22"
    and "opts c = given\<lparr>processId := Num p, workerId := Num q\<rparr>"
    and "built c p q"
    and "frozen c" and "frozen (options (own c))"
    and "added c = []" and "added (options (own c)) = []"
    and "m = \<lparr>increment = - 1, lastTimestamp = clk (reads w), locks = [], locked = False\<rparr>"
    and "w1 = w\<lparr>reads := Suc (reads w)\<rparr>"
  using assms
  by (auto simp: constructor2_def Date_now_def js_rem_def isNaN_def bigInt_number_def
      Object_freeze_def new_object_def opts_def built_def Let_def
      split: jsnum.splits if_splits)

lemma constructor1_Inr:
  assumes "constructor1 given clk w = Inr (c, m, w1)"
  shows "incrementBits given + processBits given + workerBits given = 22"
    and "\<exists>p q. js_rem (processId given) (getBits (processBits given)) = Num p \<and>
           js_rem (workerId given) (getBits (workerBits given)) = Num q \<and>
           opts c = given\<lparr>processId := Num p, workerId := Num q\<rparr> \<and> built c p q"
    and "frozen c" and "frozen (options (own c))"
    and "added c = []" and "added (options (own c)) = []"
    and "m = \<lparr>increment = - 1, lastTimestamp = clk (reads w), locks = [], locked = False\<rparr>"
    and "w1 = w\<lparr>reads := Suc (reads w)\<rparr>"
  using assms
  by (auto simp: constructor1_def Date_now_def bigInt_number_def
      Object_freeze_def new_object_def opts_def built_def Let_def
      split: jsnum.splits if_splits)

lemma constructor2_Inl:
  "(constructor2 given clk w = Inl e) =
     (e = InvalidBitWidthConfiguration \<and> incrementBits given + processBits given + workerBits given \<noteq> 22)"
  by (auto simp: constructor2_def Date_now_def js_rem_def isNaN_def bigInt_number_def Let_def
      split: jsnum.splits if_splits)

lemma constructor1_Inl_width:
  "(constructor1 given clk w = Inl InvalidBitWidthConfiguration) =
     (incrementBits given + processBits given + workerBits given \<noteq> 22)"
  by (auto simp: constructor1_def Date_now_def bigInt_number_def Let_def InvalidBitWidthConfiguration_def
      split: jsnum.splits if_splits)

lemma constructor1_zero_width:
  assumes "incrementBits given + processBits given + workerBits given = 22"
    and "processBits given = 0 \<or> workerBits given = 0"
  shows "constructor1 given clk w = Inl (Error ''Invalid integer: NaN'')"
  using assms
  by (auto simp: constructor1_def Date_now_def js_rem_def getBits_def bigInt_number_def Let_def
      split: jsnum.splits)

lemma deconstruct_error:
  "deconstruct other c x = Inl e \<Longrightarrow> \<exists>s. x = Str s \<and> other s = Inl e"
  by (auto simp: deconstruct_def bigInt_def parse_decimal_def Let_def
      split: snowflake.splits list.splits sum.splits if_splits)

lemma constructed_built:
  assumes "constructor1 given clk w = Inr (c, m, w1) \<or> constructor2 given clk w = Inr (c, m, w1)"
  obtains p q where "built c p q"
  using assms constructor1_Inr(2) [of given clk w c m w1] constructor2_Inr(3) [of given clk w c m w1]
  by blast

lemma constructed_initial:
  assumes "constructor1 given clk w = Inr (c, m, w1) \<or> constructor2 given clk w = Inr (c, m, w1)"
  shows "m = \<lparr>increment = - 1, lastTimestamp = clk (reads w), locks = [], locked = False\<rparr>"
  using assms constructor1_Inr(7) [of given clk w c m w1] constructor2_Inr(8) [of given clk w c m w1]
  by blast

lemma built_maxIncrement: "built c p q \<Longrightarrow> maxIncrement (own c) = 2 ^ incrementBits (opts c)"
  by (simp add: built_def)

subsection \<open>What \<open>_generate\<close> computes\<close>

lemma p_generate_eq:
  "p_generate c date incr clk (m, w) =
     (let t = (case date of None \<Rightarrow> clk (reads w) | Some d \<Rightarrow> if d \<noteq> 0 then d else clk (reads w));
          w1 = (case date of None \<Rightarrow> w\<lparr>reads := Suc (reads w)\<rparr>
                | Some d \<Rightarrow> if d \<noteq> 0 then w else w\<lparr>reads := Suc (reads w)\<rparr>);
          i = (case incr of None \<Rightarrow> big_mod (increment m + 1) (maxIncrement (own c)) | Some j \<Rightarrow> j);
          m1 = (case incr of None \<Rightarrow> m\<lparr>increment := i\<rparr> | Some j \<Rightarrow> m)
      in (if stringify (opts c) then Str (toString (pack c t i)) else Big (pack c t i), m1, w1))"
  by (simp add: p_generate_def get_increment_def Date_now_def Let_def split: option.splits)

lemma bigInt_rendered:
  "bigInt other (if s then Str (toString x) else Big x) = Inr x"
  by (simp add: bigInt_Str_toString) (simp add: bigInt_def)

lemma pack_built:
  assumes "built c p q"
  shows "pack c t i =
     push_bit (incrementBits (opts c) + processBits (opts c) + workerBits (opts c)) (t - epoch (opts c))
       + push_bit (incrementBits (opts c) + processBits (opts c)) q
       + push_bit (incrementBits (opts c)) p + i"
  using assms by (simp add: pack_def built_def shiftLeft_def)

lemma pack_formula:
  assumes "built c p q"
  shows "pack c t i =
     (t - epoch (opts c)) * 2 ^ 22
       + q * 2 ^ (incrementBits (opts c) + processBits (opts c))
       + p * 2 ^ incrementBits (opts c) + i"
  using assms by (simp add: pack_def built_def shiftLeft_def push_bit_eq_mult)

lemma big_mod_nonneg:
  "0 \<le> x \<Longrightarrow> 0 < n \<Longrightarrow> big_mod x n = x mod n"
  by (simp add: big_mod_def signed_modulo_int_def sgn_if)

lemma deconstruct_pack:
  assumes b: "built c p q"
    and i: "0 \<le> i" "i < 2 ^ incrementBits (opts c)"
    and p: "0 \<le> p" "p < 2 ^ processBits (opts c)"
    and q: "0 \<le> q" "q < 2 ^ workerBits (opts c)"
    and f: "bigInt other f = Inr (pack c t i)"
  shows "deconstruct other c f = Inr \<lparr>timestamp = t, d_workerId = q, d_processId = p, d_increment = i\<rparr>"
proof -
  have sum: "incrementBits (opts c) + processBits (opts c) + workerBits (opts c) = 22"
    using b by (simp add: built_def)
  note fs = fields_of_sum [OF i p q, of "t - epoch (opts c)", folded pack_built [OF b]]
  show ?thesis
    using fs by (simp add: deconstruct_bigInt [OF f] deconstruct_value sum)
qed

lemma deconstruct_increment:
  assumes b: "built c p q"
    and i: "0 \<le> i" "i < 2 ^ incrementBits (opts c)"
    and f: "bigInt other f = Inr (pack c t i)"
  shows "\<exists>d. deconstruct other c f = Inr d \<and> d_increment d = i"
proof -
  have "pack c t i = (((t - epoch (opts c)) * 2 ^ workerBits (opts c) + q) * 2 ^ processBits (opts c) + p)
      * 2 ^ incrementBits (opts c) + i"
    by (simp add: pack_built [OF b] push_bit_eq_mult power_add algebra_simps)
  then have "take_bit (incrementBits (opts c)) (pack c t i) = i"
    using field_low [OF i] by simp
  then show ?thesis
    by (simp add: deconstruct_bigInt [OF f] deconstruct_value)
qed

lemma pack_no_carry:
  assumes b: "built c p q" and i: "0 \<le> i" "i < 2 ^ incrementBits (opts c)"
  shows "drop_bit (incrementBits (opts c)) (pack c t i) = drop_bit (incrementBits (opts c)) (pack c t 0)"
proof -
  have e: "pack c t j = (((t - epoch (opts c)) * 2 ^ workerBits (opts c) + q) * 2 ^ processBits (opts c) + p)
      * 2 ^ incrementBits (opts c) + j" for j
    by (simp add: pack_built [OF b] push_bit_eq_mult power_add algebra_simps)
  show ?thesis
    unfolding e using field_top [OF i] field_top [of 0 "incrementBits (opts c)"] by simp
qed

lemma p_generate_value:
  "p_generate c date incr clk (m, w) = (f, m', w') \<Longrightarrow>
   bigInt other f = Inr (pack c (date_or_now date clk w) (increment_or_next incr c m))"
  by (auto simp: p_generate_eq Let_def date_or_now_def increment_or_next_def bigInt_rendered
      split: option.splits)

subsection \<open>The lock\<close>

lemma p_unlock_frame [simp]:
  "increment (snd (p_unlock m)) = increment m"
  "lastTimestamp (snd (p_unlock m)) = lastTimestamp m"
  by (simp_all add: p_unlock_def split: list.splits)

lemma p_lock_frame [simp]:
  "increment (snd (p_lock r m)) = increment m"
  "lastTimestamp (snd (p_lock r m)) = lastTimestamp m"
  by (simp_all add: p_lock_def)

lemma arrive_frame [simp]:
  "increment (arrive rs m) = increment m"
  "lastTimestamp (arrive rs m) = lastTimestamp m"
  by (induction rs arbitrary: m) (simp_all add: arrive_def)

lemma arrive_locked:
  "locked m \<Longrightarrow> arrive rs m = m\<lparr>locks := locks m @ rs\<rparr>"
  by (induction rs arbitrary: m) (simp_all add: arrive_def p_lock_def)

lemma releases_queue:
  "locks m = rs \<Longrightarrow>
   releases (Suc (length rs)) m = (map Some rs @ [None], m\<lparr>locks := [], locked := False\<rparr>)"
proof (induction rs arbitrary: m)
  case Nil
  then show ?case by (simp add: p_unlock_def)
next
  case (Cons r rs)
  have u: "p_unlock m = (Some r, m\<lparr>locks := rs\<rparr>)"
    using Cons.prems by (simp add: p_unlock_def)
  have "releases (Suc (length rs)) (m\<lparr>locks := rs\<rparr>)
      = (map Some rs @ [None], m\<lparr>locks := rs\<rparr>\<lparr>locks := [], locked := False\<rparr>)"
    by (rule Cons.IH) simp
  then show ?case
    using u by (simp del: releases.simps(2) add: releases.simps(2) [of "Suc (length rs)"])
qed

subsection \<open>The stretches of \<open>_generateAsync\<close>\<close>

lemma generateAsync_finish_eq:
  "generateAsync_finish c clk now (m, w) =
     (let t = (if now \<noteq> 0 then now else clk (reads w));
          w1 = (if now \<noteq> 0 then w else w\<lparr>reads := Suc (reads w)\<rparr>);
          x = pack c t (increment m)
      in (Fulfilled (if stringify (opts c) then Str (toString x) else Big x) (fst (p_unlock m)),
          snd (p_unlock m), w1))"
  by (simp add: generateAsync_finish_def p_generate_eq Let_def split: prod.splits)

lemma generateAsync_locked_eq:
  "generateAsync_locked c clk (m, w) =
     (let now = clk (reads w); w1 = w\<lparr>reads := Suc (reads w)\<rparr>
      in if lastTimestamp m \<noteq> now
         then generateAsync_finish c clk now (m\<lparr>lastTimestamp := now, increment := 0\<rparr>, w1)
         else if maxIncrement (own c) \<le> increment m + 1
         then (AwaitSleep 2, m\<lparr>increment := increment m + 1\<rparr>, w1\<lparr>sleeps := sleeps w @ [2]\<rparr>)
         else generateAsync_finish c clk now (m\<lparr>increment := increment m + 1\<rparr>, w1))"
  by (simp add: generateAsync_locked_def Date_now_def sleep_def Let_def)

lemma generateAsync_slept_eq:
  "generateAsync_slept c clk (m, w) =
     generateAsync_finish c clk (clk (reads w))
       (m\<lparr>lastTimestamp := clk (reads w), increment := 0\<rparr>, w\<lparr>reads := Suc (reads w)\<rparr>)"
  by (simp add: generateAsync_slept_def Date_now_def Let_def)

lemma critical_section_eq:
  "critical_section c clk arrivals (m, w) =
     (let now = clk (reads w); w1 = w\<lparr>reads := Suc (reads w)\<rparr>
      in if lastTimestamp m \<noteq> now
         then generateAsync_finish c clk now (m\<lparr>lastTimestamp := now, increment := 0\<rparr>, w1)
         else if maxIncrement (own c) \<le> increment m + 1
         then generateAsync_finish c clk (clk (Suc (reads w)))
                ((arrive arrivals (m\<lparr>increment := increment m + 1\<rparr>))
                   \<lparr>lastTimestamp := clk (Suc (reads w)), increment := 0\<rparr>,
                 w\<lparr>reads := Suc (Suc (reads w)), sleeps := sleeps w @ [2]\<rparr>)
         else generateAsync_finish c clk now (m\<lparr>increment := increment m + 1\<rparr>, w1))"
  by (simp add: critical_section_def generateAsync_locked_eq generateAsync_slept_eq
      generateAsync_finish_eq Let_def)

lemma generate_sequential:
  "\<not> async (opts c) \<Longrightarrow>
   generate c clk res (m, w) =
     (let i = big_mod (increment m + 1) (maxIncrement (own c)); x = pack c (clk (reads w)) i
      in (Plain (if stringify (opts c) then Str (toString x) else Big x),
          m\<lparr>increment := i\<rparr>, w\<lparr>reads := Suc (reads w)\<rparr>))"
  by (simp add: generate_def p_generate_eq Let_def)

lemma generateAsync_start_eq:
  "generateAsync_start c clk r (m, w) =
     (if locked m then (AwaitLock, m\<lparr>locks := locks m @ [r]\<rparr>, w)
      else generateAsync_locked c clk (m\<lparr>locked := True\<rparr>, w))"
  by (simp add: generateAsync_start_def p_lock_def)

lemma generate_async:
  "async (opts c) \<Longrightarrow>
   generate c clk res (m, w) =
     (let (p, s1) = generateAsync_start c clk res (m, w) in (Promise p, s1))"
  by (simp add: generate_def)

subsection \<open>The freeze\<close>

lemma tampered_frozen:
  "frozen c \<Longrightarrow> frozen (options (own c)) \<Longrightarrow> tampered t c = c"
  by (cases t) (simp_all add: assign_def assign_new_def through_options_def)

lemma fold_tampered_frozen:
  "frozen c \<Longrightarrow> frozen (options (own c)) \<Longrightarrow> fold tampered ts c = c"
  by (induction ts) (simp_all add: tampered_frozen)

lemma constructed_frozen:
  assumes "constructor1 given clk w = Inr (c, m, w1) \<or> constructor2 given clk w = Inr (c, m, w1)"
  shows "frozen c" "frozen (options (own c))" "added c = []" "added (options (own c)) = []"
  using assms constructor1_Inr(3-6) [of given clk w c m w1] constructor2_Inr(4-7) [of given clk w c m w1]
  by blast+

lemma unfrozen_is_writable:
  "assign upd (new_object x) = new_object (upd x)"
  "read_added (assign_new k v (new_object x)) k = v"
  by (simp_all add: assign_def assign_new_def new_object_def read_added_def)

subsection \<open>The increment that is packed\<close>

lemma critical_section_range:
  assumes b: "built c p q" and ok: "- 1 \<le> increment m"
  shows "case critical_section c clk arrivals (m, w) of
           (Fulfilled f woken, m', w') \<Rightarrow>
             increment_ok c m' \<and> 0 \<le> increment m' \<and> increment m' < 2 ^ incrementBits (opts c)
             \<and> (\<exists>t. bigInt other f = Inr (pack c t (increment m')))
         | _ \<Rightarrow> False"
proof -
  note mx = built_maxIncrement [OF b]
  show ?thesis
    using ok
    by (auto simp: critical_section_eq generateAsync_finish_eq mx Let_def bigInt_rendered
        increment_ok_def)
qed

lemma generateAsync_locked_range:
  assumes b: "built c p q" and ok: "increment_ok c m"
  shows "case generateAsync_locked c clk (m, w) of
           (Fulfilled f woken, m', w') \<Rightarrow>
             increment_ok c m' \<and> 0 \<le> increment m' \<and> increment m' < 2 ^ incrementBits (opts c)
             \<and> (\<exists>t. bigInt other f = Inr (pack c t (increment m')))
         | (AwaitSleep d, m', w') \<Rightarrow> increment m' = 2 ^ incrementBits (opts c) \<and> locked m' = locked m
         | (AwaitLock, m', w') \<Rightarrow> False"
proof -
  note mx = built_maxIncrement [OF b]
  show ?thesis
    using ok
    by (auto simp: generateAsync_locked_eq generateAsync_finish_eq mx Let_def bigInt_rendered
        increment_ok_def)
qed

lemma generateAsync_slept_range:
  assumes b: "built c p q"
  shows "case generateAsync_slept c clk (m, w) of
           (Fulfilled f woken, m', w') \<Rightarrow>
             increment_ok c m' \<and> increment m' = 0 \<and> (\<exists>t. bigInt other f = Inr (pack c t 0))
         | _ \<Rightarrow> False"
  by (auto simp: generateAsync_slept_eq generateAsync_finish_eq built_maxIncrement [OF b] Let_def
      bigInt_rendered increment_ok_def)

lemma generate_range:
  assumes b: "built c p q" and ok: "increment_ok c m"
  shows "case generate c clk res (m, w) of
          (Plain f, m', w') \<Rightarrow>
            increment_ok c m' \<and> 0 \<le> increment m' \<and> increment m' < 2 ^ incrementBits (opts c)
            \<and> bigInt other f = Inr (pack c (clk (reads w)) (increment m'))
        | (Promise (Fulfilled f woken), m', w') \<Rightarrow>
            increment_ok c m' \<and> 0 \<le> increment m' \<and> increment m' < 2 ^ incrementBits (opts c)
            \<and> (\<exists>t. bigInt other f = Inr (pack c t (increment m')))
        | (Promise (AwaitSleep d), m', w') \<Rightarrow> increment m' = 2 ^ incrementBits (opts c)
        | (Promise AwaitLock, m', w') \<Rightarrow> increment m' = increment m"
proof (cases "async (opts c)")
  case False
  note mx = built_maxIncrement [OF b]
  have lo: "- 1 \<le> increment m"
    using ok by (simp add: increment_ok_def)
  have "0 \<le> (increment m + 1) mod 2 ^ incrementBits (opts c)"
    by simp
  then have "- 1 \<le> (increment m + 1) mod 2 ^ incrementBits (opts c)"
    by linarith
  with False lo show ?thesis
    by (simp add: generate_sequential mx Let_def bigInt_rendered big_mod_nonneg increment_ok_def)
next
  case True
  show ?thesis
  proof (cases "locked m")
    case True
    with \<open>async (opts c)\<close> show ?thesis
      by (simp add: generate_async generateAsync_start_eq)
  next
    case False
    have ok': "increment_ok c (m\<lparr>locked := True\<rparr>)"
      using ok by (simp add: increment_ok_def)
    from False \<open>async (opts c)\<close> generateAsync_locked_range [OF b ok', where clk = clk and w = w]
    show ?thesis
      by (auto simp: generate_async generateAsync_start_eq split: prod.splits progress.splits)
  qed
qed

lemma increment_field:
  assumes b: "built c p q" and i: "0 \<le> i" "i < 2 ^ incrementBits (opts c)"
  shows "drop_bit (incrementBits (opts c)) (pack c t i) = drop_bit (incrementBits (opts c)) (pack c t 0)"
    and "take_bit (incrementBits (opts c)) (pack c t i) = i"
proof -
  show "drop_bit (incrementBits (opts c)) (pack c t i) = drop_bit (incrementBits (opts c)) (pack c t 0)"
    by (rule pack_no_carry [OF b i])
  have "bigInt other (Big (pack c t i)) = Inr (pack c t i)"
    by (simp add: bigInt_def)
  from deconstruct_increment [OF b i this]
  show "take_bit (incrementBits (opts c)) (pack c t i) = i"
    by (auto simp: deconstruct_value)
qed

lemma constructed_increment_ok:
  assumes c: "constructor1 given clk w = Inr (c, m, w1) \<or> constructor2 given clk w = Inr (c, m, w1)"
  shows "increment_ok c m"
proof -
  from c obtain p q where b: "built c p q" by (rule constructed_built)
  have seed: "(- 1 :: int) < 2 ^ n" for n
    by (rule less_trans [of _ 0]) simp_all
  show ?thesis
    using constructed_initial [OF c] by (simp add: increment_ok_def built_maxIncrement [OF b] seed)
qed

subsection \<open>The event loop\<close>

lemma exclusive_step: "exclusive c l \<Longrightarrow> exclusive c (step c clk ev l)"
proof (cases ev)
  case (Call r)
  assume "exclusive c l"
  with Call show ?thesis
    by (cases "async (opts c)")
      (auto simp: exclusive_def settle_def generate_async generate_sequential generateAsync_start_eq
        generateAsync_locked_eq generateAsync_finish_eq p_unlock_def Let_def split: list.splits)
next
  case Timer
  assume "exclusive c l"
  with Timer show ?thesis
    by (auto simp: exclusive_def settle_def generateAsync_slept_eq generateAsync_finish_eq
        p_unlock_def Let_def split: list.splits option.splits)
next
  case Continue
  assume "exclusive c l"
  with Continue show ?thesis
    by (auto simp: exclusive_def settle_def generateAsync_locked_eq generateAsync_finish_eq
        p_unlock_def Let_def split: list.splits option.splits)
qed

lemma exclusive_run: "exclusive c l \<Longrightarrow> exclusive c (run c clk evs l)"
  unfolding run_def by (induction evs arbitrary: l) (simp_all add: exclusive_step)

lemma service_order_step:
  assumes e: "exclusive c l"
  shows "service_order (step c clk ev l) = service_order l @ callers [ev]"
proof (cases ev)
  case (Call r)
  with e show ?thesis
    by (cases "async (opts c)")
      (auto simp: service_order_def holder_def exclusive_def settle_def generate_async
        generate_sequential generateAsync_start_eq generateAsync_locked_eq generateAsync_finish_eq
        p_unlock_def Let_def split: list.splits option.splits)
next
  case Timer
  with e show ?thesis
    by (auto simp: service_order_def holder_def exclusive_def settle_def generateAsync_slept_eq
        generateAsync_finish_eq p_unlock_def Let_def split: list.splits option.splits)
next
  case Continue
  with e show ?thesis
    by (auto simp: service_order_def holder_def exclusive_def settle_def generateAsync_locked_eq
        generateAsync_finish_eq p_unlock_def Let_def split: list.splits option.splits)
qed

lemma callers_append: "callers (xs @ ys) = callers xs @ callers ys"
  by (induction xs rule: callers.induct) simp_all

lemma service_order_run:
  "exclusive c l \<Longrightarrow> service_order (run c clk evs l) = service_order l @ callers evs"
proof (induction evs arbitrary: l)
  case Nil
  then show ?case by (simp add: run_def)
next
  case (Cons ev evs)
  have "run c clk (ev # evs) l = run c clk evs (step c clk ev l)"
    by (simp add: run_def)
  moreover have "callers (ev # evs) = callers [ev] @ callers evs"
    using callers_append [of "[ev]" evs] by simp
  ultimately show ?case
    using Cons.IH [OF exclusive_step [OF Cons.prems]] service_order_step [OF Cons.prems, of clk ev]
    by simp
qed

lemma fits_pack:
  assumes b: "built c p q" and i: "0 \<le> i" "i < 2 ^ incrementBits (opts c)"
    and f: "bigInt other f = Inr (pack c t i)"
  shows "fits other c f"
proof -
  have "incrementBits (opts c) \<le> 22"
    using b by (simp add: built_def)
  then have "(2 :: int) ^ incrementBits (opts c) \<le> 2 ^ 22"
    by (rule power_increasing) simp
  with i have "i < 2 ^ 22" by linarith
  with i have tb: "take_bit 22 ((t - epoch (opts c)) * 2 ^ 22 + i) = i"
    by (intro field_low)
  have eq: "pack c t i - this_workerId (own c) - this_processId (own c)
      = (t - epoch (opts c)) * 2 ^ 22 + i"
    by (simp add: pack_def shiftLeft_def push_bit_eq_mult)
  have "fits other c f
      = (take_bit 22 (pack c t i - this_workerId (own c) - this_processId (own c))
          < 2 ^ incrementBits (opts c))"
    by (simp only: fits_def f sum.case)
  also have "\<dots> = (i < 2 ^ incrementBits (opts c))"
    by (simp only: eq tb)
  finally show ?thesis
    using i by simp
qed

lemma fits_iff:
  assumes b: "built c p q"
  shows "fits other c f = (\<exists>t i. bigInt other f = Inr (pack c t i) \<and> 0 \<le> i \<and> i < 2 ^ incrementBits (opts c))"
proof
  assume "fits other c f"
  then obtain x where x: "bigInt other f = Inr x"
    and lt: "take_bit 22 (x - this_workerId (own c) - this_processId (own c)) < 2 ^ incrementBits (opts c)"
    by (auto simp: fits_def split: sum.splits)
  let ?r = "x - this_workerId (own c) - this_processId (own c)"
  have "x = pack c (drop_bit 22 ?r + epoch (opts c)) (take_bit 22 ?r)"
    using bits_ident [of 22 ?r] by (simp add: pack_def shiftLeft_def)
  with x lt show "\<exists>t i. bigInt other f = Inr (pack c t i) \<and> 0 \<le> i \<and> i < 2 ^ incrementBits (opts c)"
    by (intro exI [of _ "drop_bit 22 ?r + epoch (opts c)"] exI [of _ "take_bit 22 ?r"]) simp
next
  assume "\<exists>t i. bigInt other f = Inr (pack c t i) \<and> 0 \<le> i \<and> i < 2 ^ incrementBits (opts c)"
  then show "fits other c f"
    using fits_pack [OF b] by blast
qed

lemma fits_rendered:
  assumes b: "built c p q" and i: "0 \<le> i" "i < 2 ^ incrementBits (opts c)"
  shows "fits other c (Str (toString (pack c t i)))" and "fits other c (Big (pack c t i))"
  using fits_pack [OF b i bigInt_Str_toString] fits_pack [OF b i, where f = "Big (pack c t i)" and t = t and other = other]
  by (simp_all add: bigInt_def)

lemma steady_step:
  assumes b: "built c p q" and e: "exclusive c l" and s: "steady c l"
  shows "steady c (step c clk ev l)"
proof -
  note mx = built_maxIncrement [OF b]
  have seed: "(- 1 :: int) < 2 ^ n" for n
    by (rule less_trans [of _ 0]) simp_all
  have wrap: "- 1 \<le> big_mod (x + 1) (2 ^ n)" "big_mod (x + 1) (2 ^ n) < 2 ^ n" if "- 1 \<le> x" for x n
  proof -
    have "0 \<le> (x + 1) mod 2 ^ n" by simp
    then have "- 1 \<le> (x + 1) mod 2 ^ n" by linarith
    with that show "- 1 \<le> big_mod (x + 1) (2 ^ n)"
      by (simp add: big_mod_nonneg)
    from that show "big_mod (x + 1) (2 ^ n) < 2 ^ n"
      by (simp add: big_mod_nonneg)
  qed
  show ?thesis
  proof (cases ev)
    case (Call r)
    with e s show ?thesis
      by (cases "async (opts c)")
        (auto simp: steady_def exclusive_def settle_def generate_async generate_sequential
          generateAsync_start_eq generateAsync_locked_eq generateAsync_finish_eq
          increment_ok_def mx seed wrap Let_def)
  next
    case Timer
    with e s show ?thesis
      by (auto simp: steady_def exclusive_def settle_def generateAsync_slept_eq
          generateAsync_finish_eq increment_ok_def mx seed Let_def split: option.splits)
  next
    case Continue
    with e s show ?thesis
      by (auto simp: steady_def exclusive_def settle_def generateAsync_locked_eq
          generateAsync_finish_eq increment_ok_def mx seed Let_def split: option.splits)
  qed
qed

lemma fits_step:
  assumes b: "built c p q" and e: "exclusive c l" and s: "steady c l"
    and r: "list_all (fits other c) (map snd (returned l))"
  shows "list_all (fits other c) (map snd (returned (step c clk ev l)))"
proof -
  note mx = built_maxIncrement [OF b]
  note fit = fits_rendered [OF b]
  note zero = fit [of 0, simplified]
  have wrap: "0 \<le> big_mod (x + 1) (2 ^ n)" "big_mod (x + 1) (2 ^ n) < 2 ^ n" if "- 1 \<le> x" for x n
  proof -
    have "0 \<le> (x + 1) mod 2 ^ n" "(x + 1) mod 2 ^ n < 2 ^ n" by simp_all
    with that show "0 \<le> big_mod (x + 1) (2 ^ n)" "big_mod (x + 1) (2 ^ n) < 2 ^ n"
      by (simp_all add: big_mod_nonneg)
  qed
  show ?thesis
  proof (cases ev)
    case (Call r')
    with e s r show ?thesis
      by (cases "async (opts c)")
        (auto simp: steady_def exclusive_def settle_def generate_async generate_sequential
          generateAsync_start_eq generateAsync_locked_eq generateAsync_finish_eq
          increment_ok_def mx Let_def zero fit wrap)
  next
    case Timer
    with e s r show ?thesis
      by (auto simp: settle_def generateAsync_slept_eq generateAsync_finish_eq
          Let_def zero split: option.splits)
  next
    case Continue
    with e s r show ?thesis
      by (auto simp: steady_def exclusive_def settle_def generateAsync_locked_eq
          generateAsync_finish_eq increment_ok_def mx Let_def zero fit split: option.splits)
  qed
qed

lemma steady_run:
  assumes b: "built c p q"
  shows "exclusive c l \<Longrightarrow> steady c l \<Longrightarrow> list_all (fits other c) (map snd (returned l)) \<Longrightarrow>
         steady c (run c clk evs l) \<and> list_all (fits other c) (map snd (returned (run c clk evs l)))"
proof (induction evs arbitrary: l)
  case Nil
  then show ?case by (simp add: run_def)
next
  case (Cons ev evs)
  have "run c clk (ev # evs) l = run c clk evs (step c clk ev l)"
    by (simp add: run_def)
  then show ?case
    using Cons.IH [OF exclusive_step [OF Cons.prems(1)] steady_step [OF b Cons.prems(1,2)]
        fits_step [OF b Cons.prems]]
    by simp
qed

lemma started_invariants:
  assumes "constructor1 given clk w = Inr (c, m, w1) \<or> constructor2 given clk w = Inr (c, m, w1)"
  shows "exclusive c (started m w1)" and "steady c (started m w1)"
    and "service_order (started m w1) = []"
  using constructed_initial [OF assms] constructed_increment_ok [OF assms]
  by (simp_all add: exclusive_def steady_def service_order_def holder_def started_def)

subsection \<open>Where the ids are reduced into range, and read back\<close>

lemma smod_range:
  fixes x b :: int
  assumes "0 < b"
  shows "x smod b < b" and "0 \<le> x \<Longrightarrow> x smod b = x mod b" and "0 \<le> x \<Longrightarrow> 0 \<le> x smod b"
proof -
  have "\<bar>x\<bar> mod \<bar>b\<bar> < b" "0 \<le> \<bar>x\<bar> mod \<bar>b\<bar>"
    using assms by simp_all
  then show "x smod b < b"
    by (cases "x < 0") (simp_all add: signed_modulo_int_def sgn_if)
  show "0 \<le> x \<Longrightarrow> x smod b = x mod b"
    using assms by (simp add: signed_modulo_int_def sgn_if)
  then show "0 \<le> x \<Longrightarrow> 0 \<le> x smod b"
    using assms by simp
qed

lemma constructor2_reduces:
  assumes "constructor2 given clk w = Inr (c, m, w1)"
  shows "processId (opts c) =
           (case processId given of NaN \<Rightarrow> Num 0 | Num x \<Rightarrow> Num (x smod 2 ^ processBits given))"
    and "workerId (opts c) =
           (case workerId given of NaN \<Rightarrow> Num 0 | Num x \<Rightarrow> Num (x smod 2 ^ workerBits given))"
    and "processId given = Num x \<Longrightarrow> 0 \<le> x \<Longrightarrow> processId (opts c) = Num (x mod 2 ^ processBits given)"
    and "workerId given = Num y \<Longrightarrow> 0 \<le> y \<Longrightarrow> workerId (opts c) = Num (y mod 2 ^ workerBits given)"
  using constructor2_Inr(2) [OF assms]
  by (simp_all add: smod_range(2) split: jsnum.splits)

lemma constructed_ids_below:
  assumes c: "constructor1 given clk w = Inr (c, m, w1) \<or> constructor2 given clk w = Inr (c, m, w1)"
    and ids: "processId (opts c) = Num p" "workerId (opts c) = Num q"
  shows "p < 2 ^ processBits (opts c)" and "q < 2 ^ workerBits (opts c)"
proof -
  have one: "x smod (2 ^ n - 1) < 2 ^ n" if "js_rem (Num x) (getBits n) = Num y" for x y :: int and n
  proof -
    from that have "(2 :: int) ^ n - 1 \<noteq> 0"
      by (auto simp: js_rem_def getBits_def split: if_splits)
    moreover have "(1 :: int) \<le> 2 ^ n" by simp
    ultimately have "(0 :: int) < 2 ^ n - 1" by linarith
    from smod_range(1) [OF this, of x] show ?thesis by linarith
  qed
  from c show "p < 2 ^ processBits (opts c)"
  proof
    assume "constructor2 given clk w = Inr (c, m, w1)"
    from constructor2_Inr(2) [OF this] ids(1) show ?thesis
      by (auto simp: smod_range(1) split: jsnum.splits)
  next
    assume "constructor1 given clk w = Inr (c, m, w1)"
    from constructor1_Inr(2) [OF this] ids(1) one show ?thesis
      by (auto simp: js_rem_def getBits_def split: jsnum.splits if_splits)
  qed
  from c show "q < 2 ^ workerBits (opts c)"
  proof
    assume "constructor2 given clk w = Inr (c, m, w1)"
    from constructor2_Inr(2) [OF this] ids(2) show ?thesis
      by (auto simp: smod_range(1) split: jsnum.splits)
  next
    assume "constructor1 given clk w = Inr (c, m, w1)"
    from constructor1_Inr(2) [OF this] ids(2) one show ?thesis
      by (auto simp: js_rem_def getBits_def split: jsnum.splits if_splits)
  qed
qed

lemma round_trip_ids:
  assumes c: "constructor1 given clk0 w0 = Inr (c, m0, w1) \<or> constructor2 given clk0 w0 = Inr (c, m0, w1)"
    and ids: "processId (opts c) = Num p" "workerId (opts c) = Num q"
    and nonneg: "0 \<le> p" "0 \<le> q"
    and ok: "increment_ok c m"
  shows "case generate c clk res (m, w) of
           (Plain f, s) \<Rightarrow> (\<exists>d. deconstruct other c f = Inr d \<and> d_processId d = p \<and> d_workerId d = q)
         | (Promise (Fulfilled f woken), s) \<Rightarrow>
             (\<exists>d. deconstruct other c f = Inr d \<and> d_processId d = p \<and> d_workerId d = q)
         | (Promise pending, s) \<Rightarrow> True"
    and "case critical_section c clk arrivals (m, w) of
           (Fulfilled f woken, s) \<Rightarrow> (\<exists>d. deconstruct other c f = Inr d \<and> d_processId d = p \<and> d_workerId d = q)
         | (pending, s) \<Rightarrow> False"
proof -
  from c obtain p' q' where b': "built c p' q'" by (rule constructed_built)
  with ids have b: "built c p q" by (simp add: built_def)
  note below = constructed_ids_below [OF c ids]
  have rt: "\<exists>d. deconstruct other c f = Inr d \<and> d_processId d = p \<and> d_workerId d = q"
    if "bigInt other f = Inr (pack c t i)" "0 \<le> i" "i < 2 ^ incrementBits (opts c)" for f t i
    using deconstruct_pack [OF b that(2,3) nonneg(1) below(1) nonneg(2) below(2) that(1)] by simp
  from generate_range [OF b ok, where clk = clk and res = res and w = w and other = other]
  show "case generate c clk res (m, w) of
           (Plain f, s) \<Rightarrow> (\<exists>d. deconstruct other c f = Inr d \<and> d_processId d = p \<and> d_workerId d = q)
         | (Promise (Fulfilled f woken), s) \<Rightarrow>
             (\<exists>d. deconstruct other c f = Inr d \<and> d_processId d = p \<and> d_workerId d = q)
         | (Promise pending, s) \<Rightarrow> True"
    by (auto split: prod.splits generated.splits progress.splits dest: rt)
  have "- 1 \<le> increment m"
    using ok by (simp add: increment_ok_def)
  from critical_section_range [OF b this, where clk = clk and arrivals = arrivals and w = w
      and other = other]
  show "case critical_section c clk arrivals (m, w) of
           (Fulfilled f woken, s) \<Rightarrow> (\<exists>d. deconstruct other c f = Inr d \<and> d_processId d = p \<and> d_workerId d = q)
         | (pending, s) \<Rightarrow> False"
    by (auto split: prod.splits generated.splits progress.splits dest: rt)
qed

subsection \<open>The example run\<close>

lemma digit_char_numerals:
  "digit_char 0 = CHR ''0''" "digit_char 1 = CHR ''1''" "digit_char 2 = CHR ''2''"
  "digit_char 3 = CHR ''3''" "digit_char 4 = CHR ''4''" "digit_char 5 = CHR ''5''"
  "digit_char 6 = CHR ''6''" "digit_char 7 = CHR ''7''" "digit_char 8 = CHR ''8''"
  "digit_char 9 = CHR ''9''" "digit_char (Suc 0) = CHR ''1''"
  by (simp_all add: digit_char_def char_of_def bit_0)

lemma default_options_fields:
  "epoch default_options = 1420070400000" "incrementBits default_options = 12"
  "processBits default_options = 5" "workerBits default_options = 5"
  "processId default_options = Num 0" "workerId default_options = Num 0"
  "async default_options = False" "stringify default_options = True"
  by (simp_all add: default_options_def)

lemma example_opts:
  "opts (example_instance given p q) = given\<lparr>processId := Num p, workerId := Num q\<rparr>"
  by (simp add: opts_def example_instance_def)

lemma example_constructed:
  "constructor2 default_options example_clock example_world
     = Inr (example_instance default_options 0 0, example_mutable, \<lparr>reads = Suc 0, sleeps = []\<rparr>)"
  by (simp add: constructor2_def default_options_def example_clock_def example_world_def
      example_instance_def example_mutable_def Date_now_def js_rem_def isNaN_def bigInt_number_def
      Object_freeze_def new_object_def shiftLeft_def Let_def)

lemma example_fields:
  "maxIncrement (own (example_instance given p q)) = 2 ^ incrementBits given"
  "this_workerId (own (example_instance given p q)) = q * 2 ^ (incrementBits given + processBits given)"
  "this_processId (own (example_instance given p q)) = p * 2 ^ incrementBits given"
  by (simp_all add: example_instance_def)

lemma example_pack:
  "pack (example_instance given p q) t i =
     (t - epoch given) * 2 ^ 22 + q * 2 ^ (incrementBits given + processBits given)
       + p * 2 ^ incrementBits given + i"
  by (simp add: pack_def example_opts example_fields shiftLeft_def push_bit_eq_mult)

lemma example_constructed2:
  assumes "incrementBits given + processBits given + workerBits given = 22"
    and "processId given = Num p" and "workerId given = Num q"
  shows "constructor2 given example_clock example_world
     = Inr (example_instance given (p smod 2 ^ processBits given) (q smod 2 ^ workerBits given),
            example_mutable, \<lparr>reads = Suc 0, sleeps = []\<rparr>)"
  using assms
  by (simp add: constructor2_def example_clock_def example_world_def example_instance_def
      example_mutable_def Date_now_def js_rem_def isNaN_def bigInt_number_def
      Object_freeze_def new_object_def shiftLeft_def push_bit_eq_mult Let_def)

lemma narrow_constructed:
  "constructor2 narrow_options slow_clock example_world
     = Inr (example_instance narrow_options 0 0, example_mutable, \<lparr>reads = Suc 0, sleeps = []\<rparr>)"
  by (simp add: constructor2_def narrow_options_def default_options_def slow_clock_def
      example_world_def example_instance_def example_mutable_def Date_now_def js_rem_def isNaN_def
      bigInt_number_def Object_freeze_def new_object_def shiftLeft_def Let_def)

lemma narrow_run:
  "run (example_instance narrow_options 0 0) slow_clock [Call 10, Call 20, Call 30, Timer, Continue]
     (started example_mutable \<lparr>reads = Suc 0, sleeps = []\<rparr>)
   = \<lparr>mstate = \<lparr>increment = 1, lastTimestamp = 1514790000001, locks = [], locked = True\<rparr>,
      wstate = \<lparr>reads = Suc (Suc (Suc (Suc (Suc 0)))), sleeps = [2, 2]\<rparr>,
      sleeping = Some (30 :: nat), granted = None,
      returned = [(10, Big 397282797158400000), (20, Big 397282797162594304)]\<rparr>"
  by (simp add: run_def started_def settle_def generate_async generateAsync_start_eq
      generateAsync_locked_eq generateAsync_slept_eq generateAsync_finish_eq p_unlock_def
      example_pack example_fields example_opts narrow_options_def default_options_fields
      example_mutable_def slow_clock_def Let_def)

subsection \<open>The layout, the bit-width check and the critical section in general\<close>

lemma pack_fields:
  assumes c: "constructor1 given clk0 w0 = Inr (c, m0, w1) \<or> constructor2 given clk0 w0 = Inr (c, m0, w1)"
    and i: "0 \<le> increment_or_next incr c m" "increment_or_next incr c m < 2 ^ incrementBits (opts c)"
  shows "case (processId (opts c), workerId (opts c), p_generate c date incr clk (m, w)) of
           (Num p, Num q, f, m', w') \<Rightarrow>
             bigInt other f = Inr ((date_or_now date clk w - epoch (opts c)) * 2 ^ 22
                              + q * 2 ^ (incrementBits (opts c) + processBits (opts c))
                              + p * 2 ^ incrementBits (opts c) + increment_or_next incr c m)
             \<and> incrementBits (opts c) + processBits (opts c) + workerBits (opts c) = 22
             \<and> (0 \<le> p \<and> p < 2 ^ processBits (opts c) \<and> 0 \<le> q \<and> q < 2 ^ workerBits (opts c) \<longrightarrow>
                  deconstruct other c f = Inr \<lparr>timestamp = date_or_now date clk w, d_workerId = q,
                                          d_processId = p, d_increment = increment_or_next incr c m\<rparr>)
         | _ \<Rightarrow> False"
proof -
  from c obtain p q where b: "built c p q" by (rule constructed_built)
  obtain f m' w' where g: "p_generate c date incr clk (m, w) = (f, m', w')"
    by (cases "p_generate c date incr clk (m, w)") auto
  have ids: "processId (opts c) = Num p" "workerId (opts c) = Num q"
    and sum: "incrementBits (opts c) + processBits (opts c) + workerBits (opts c) = 22"
    using b by (simp_all add: built_def)
  have v: "bigInt other f = Inr (pack c (date_or_now date clk w) (increment_or_next incr c m))"
    using g by (rule p_generate_value)
  have d: "deconstruct other c f = Inr \<lparr>timestamp = date_or_now date clk w, d_workerId = q,
                                    d_processId = p, d_increment = increment_or_next incr c m\<rparr>"
    if "0 \<le> p" "p < 2 ^ processBits (opts c)" "0 \<le> q" "q < 2 ^ workerBits (opts c)"
    using deconstruct_pack [OF b i that v] .
  show ?thesis
    using v d sum by (simp add: ids g pack_formula [OF b])
qed

lemma width_error_iff:
  "(constructor1 given clk w = (Inl InvalidBitWidthConfiguration :: error + Catflake \<times> 'r mutable \<times> world))
     = (incrementBits given + processBits given + workerBits given \<noteq> 22)
   \<and> (constructor2 given clk w = (Inl InvalidBitWidthConfiguration :: error + Catflake \<times> 'r mutable \<times> world))
     = (incrementBits given + processBits given + workerBits given \<noteq> 22)
   \<and> (\<exists>c (m :: 'r mutable) w1. constructor2 given clk w = Inr (c, m, w1))
     = (incrementBits given + processBits given + workerBits given = 22)"
proof -
  have "(\<exists>c (m :: 'r mutable) w1. constructor2 given clk w = Inr (c, m, w1))
     = (incrementBits given + processBits given + workerBits given = 22)"
  proof (cases "constructor2 given clk w :: error + Catflake \<times> 'r mutable \<times> world")
    case (Inl e)
    then have "incrementBits given + processBits given + workerBits given \<noteq> 22"
      by (simp add: constructor2_Inl)
    with Inl show ?thesis by simp
  next
    case (Inr r)
    obtain c' m' w' where r: "r = (c', m', w')" by (cases r) auto
    from constructor2_Inr(1) [OF Inr [unfolded r]] show ?thesis by (simp add: Inr r)
  qed
  then show ?thesis
    using constructor1_Inl_width constructor2_Inl by blast
qed

lemma critical_section_cases:
  assumes c: "constructor1 given clk0 w0 = Inr (c, m0, w1) \<or> constructor2 given clk0 w0 = Inr (c, m0, w1)"
  shows "case critical_section c clk arrivals (m, w) of
           (Fulfilled f woken, m', w') \<Rightarrow>
             (if lastTimestamp m \<noteq> clk (reads w) then
                lastTimestamp m' = clk (reads w) \<and> increment m' = 0 \<and> sleeps w' = sleeps w
                \<and> bigInt other f = Inr (pack c (date_or_now (Some (clk (reads w))) clk (w\<lparr>reads := Suc (reads w)\<rparr>)) 0)
              else if increment m + 1 < 2 ^ incrementBits (opts c) then
                lastTimestamp m' = lastTimestamp m \<and> increment m' = increment m + 1 \<and> sleeps w' = sleeps w
                \<and> bigInt other f = Inr (pack c (date_or_now (Some (clk (reads w))) clk (w\<lparr>reads := Suc (reads w)\<rparr>))
                                   (increment m + 1))
              else
                sleeps w' = sleeps w @ [2] \<and> lastTimestamp m' = clk (Suc (reads w)) \<and> increment m' = 0
                \<and> bigInt other f = Inr (pack c (date_or_now (Some (clk (Suc (reads w)))) clk
                                             (w\<lparr>reads := Suc (Suc (reads w))\<rparr>)) 0))
             \<and> increment m' < 2 ^ incrementBits (opts c)
         | _ \<Rightarrow> False"
proof -
  from c obtain p q where b: "built c p q" by (rule constructed_built)
  note mx = built_maxIncrement [OF b]
  show ?thesis
  proof (cases "lastTimestamp m \<noteq> clk (reads w)")
    case True
    then show ?thesis
      by (simp add: critical_section_eq generateAsync_finish_eq Let_def date_or_now_def bigInt_rendered)
  next
    case same: False
    show ?thesis
    proof (cases "increment m + 1 < 2 ^ incrementBits (opts c)")
      case True
      with same show ?thesis
        by (simp add: critical_section_eq generateAsync_finish_eq mx Let_def date_or_now_def
            bigInt_rendered)
    next
      case False
      with same show ?thesis
        by (simp add: critical_section_eq generateAsync_finish_eq mx Let_def date_or_now_def
            bigInt_rendered)
    qed
  qed
qed

section \<open>The claims\<close>

text \<open>
  C1, at its failing input. With a process id of \<open>-1\<close> the stored process id is \<open>-1\<close> and
  the stored worker id is 0, but the snowflake \<open>generate\<close> returns (in either mode)
  deconstructs to process id 31 and worker id 31, and to a timestamp one millisecond
  before the one that was read.
\<close>

theorem negative_id_round_trip:
  "(case constructor2 (default_options\<lparr>processId := Num (- 1)\<rparr>) example_clock example_world of
      Inl e \<Rightarrow> None
    | Inr (c, m, w1) \<Rightarrow>
        (case generate c example_clock (0 :: nat) (m, w1) of
           (Plain f, s) \<Rightarrow> Some (f, processId (opts c), workerId (opts c), deconstruct other c f)
         | (Promise p, s) \<Rightarrow> None))
     = Some (Str ''397282797162590208'', Num (- 1), Num 0,
             Inr \<lparr>timestamp = 1514790000000, d_workerId = 31, d_processId = 31, d_increment = 0\<rparr>)
   \<and> (case constructor2 (default_options\<lparr>processId := Num (- 1), async := True\<rparr>) example_clock
             example_world of
      Inl e \<Rightarrow> None
    | Inr (c, m, w1) \<Rightarrow>
        (case generate c example_clock (0 :: nat) (m, w1) of
           (Promise (Fulfilled f woken), s) \<Rightarrow>
             Some (f, processId (opts c), workerId (opts c), deconstruct other c f)
         | _ \<Rightarrow> None))
     = Some (Str ''397282797162590208'', Num (- 1), Num 0,
             Inr \<lparr>timestamp = 1514790000000, d_workerId = 31, d_processId = 31, d_increment = 0\<rparr>)"
proof -
  let ?seq = "default_options\<lparr>processId := Num (- 1)\<rparr>"
  let ?con = "default_options\<lparr>processId := Num (- 1), async := True\<rparr>"
  let ?w = "\<lparr>reads = Suc 0, sleeps = []\<rparr>"
  have c1: "constructor2 ?seq example_clock example_world
      = Inr (example_instance ?seq (- 1) 0, example_mutable, ?w)"
    using example_constructed2 [of ?seq "- 1" 0]
    by (simp add: default_options_fields signed_modulo_int_def)
  have c2: "constructor2 ?con example_clock example_world
      = Inr (example_instance ?con (- 1) 0, example_mutable, ?w)"
    using example_constructed2 [of ?con "- 1" 0]
    by (simp add: default_options_fields signed_modulo_int_def)
  have g1: "generate (example_instance ?seq (- 1) 0) example_clock (0 :: nat) (example_mutable, ?w)
      = (Plain (Str ''397282797162590208''), example_mutable\<lparr>increment := 0\<rparr>,
         \<lparr>reads = Suc (Suc 0), sleeps = []\<rparr>)"
    by (simp add: generate_def p_generate_eq example_pack example_fields example_opts
        default_options_fields example_mutable_def example_clock_def big_mod_def
        signed_modulo_int_def toString_def digits.simps digit_char_numerals Let_def)
  have g2: "generate (example_instance ?con (- 1) 0) example_clock (0 :: nat) (example_mutable, ?w)
      = (Promise (Fulfilled (Str ''397282797162590208'') None),
         \<lparr>increment = 0, lastTimestamp = 1514790000001, locks = [], locked = False\<rparr>,
         \<lparr>reads = Suc (Suc 0), sleeps = []\<rparr>)"
    by (simp add: generate_def generateAsync_start_def p_lock_def generateAsync_locked_eq
        generateAsync_finish_eq p_unlock_def example_pack example_fields example_opts
        default_options_fields example_mutable_def example_clock_def
        toString_def digits.simps digit_char_numerals Let_def)
  have v: "bigInt other (Str ''397282797162590208'') = Inr 397282797162590208"
    by (simp add: bigInt_def parse_decimal_def is_digit_def from_digits_def digit_value_def)
  have d: "deconstruct other (example_instance given (- 1) 0) (Str ''397282797162590208'')
      = Inr \<lparr>timestamp = 397282797162590208 div 2 ^ 22 + epoch given,
              d_workerId = 397282797162590208 div 2 ^ (incrementBits given + processBits given)
                             mod 2 ^ workerBits given,
              d_processId = 397282797162590208 div 2 ^ incrementBits given mod 2 ^ processBits given,
              d_increment = 397282797162590208 mod 2 ^ incrementBits given\<rparr>" for given
    by (simp add: deconstruct_bigInt [OF v] deconstruct_value example_opts drop_bit_eq_div
        take_bit_eq_mod)
  show ?thesis
    by (simp add: c1 c2 g1 g2 d example_opts default_options_fields)
qed

text \<open>
  C2, at its failing input. With a process id of \<open>-1\<close>, which both constructors store as
  \<open>-1\<close>, \<open>_generate\<close> called with the timestamp 1514790000000 and the increment 3242 returns
  397282797158399146. That is the value of the formula at the stored ids \<open>-1\<close> and 0, but
  the four fields do not lie in disjoint bit ranges: the shifted process id is \<open>-4096\<close>,
  it borrows from the worker id and from the timestamp, and \<open>deconstruct\<close> reads timestamp
  1514789999999, worker id 31 and process id 31. For stored ids that fit their widths
  the fields are disjoint, for every timestamp and increment (\<open>pack_fields\<close>).
\<close>

theorem negative_id_layout:
  "(case constructor2 (default_options\<lparr>processId := Num (- 1)\<rparr>) example_clock example_world of
      Inl e \<Rightarrow> None
    | Inr (c, m, w1) \<Rightarrow>
        (case p_generate c (Some 1514790000000) (Some 3242) example_clock (m :: nat mutable, w1) of
           (f, s) \<Rightarrow> Some (processId (opts c), workerId (opts c), f, bigInt other f, deconstruct other c f)))
     = Some (Num (- 1), Num 0, Str ''397282797158399146'',
             Inr ((1514790000000 - 1420070400000) * 2 ^ 22 + 0 * 2 ^ (12 + 5) + (- 1) * 2 ^ 12 + 3242),
             Inr \<lparr>timestamp = 1514789999999, d_workerId = 31, d_processId = 31, d_increment = 3242\<rparr>)
   \<and> (case constructor1 (default_options\<lparr>processId := Num (- 1)\<rparr>) example_clock example_world of
      Inl e \<Rightarrow> None
    | Inr (c, m, w1) \<Rightarrow>
        (case p_generate c (Some 1514790000000) (Some 3242) example_clock (m :: nat mutable, w1) of
           (f, s) \<Rightarrow> Some (processId (opts c), workerId (opts c), f, bigInt other f, deconstruct other c f)))
     = Some (Num (- 1), Num 0, Str ''397282797158399146'',
             Inr ((1514790000000 - 1420070400000) * 2 ^ 22 + 0 * 2 ^ (12 + 5) + (- 1) * 2 ^ 12 + 3242),
             Inr \<lparr>timestamp = 1514789999999, d_workerId = 31, d_processId = 31, d_increment = 3242\<rparr>)"
proof -
  let ?o = "default_options\<lparr>processId := Num (- 1)\<rparr>"
  let ?w = "\<lparr>reads = Suc 0, sleeps = []\<rparr>"
  have c2: "constructor2 ?o example_clock example_world
      = Inr (example_instance ?o (- 1) 0, example_mutable, ?w)"
    using example_constructed2 [of ?o "- 1" 0]
    by (simp add: default_options_fields signed_modulo_int_def)
  have c1: "constructor1 ?o example_clock example_world
      = Inr (example_instance ?o (- 1) 0, example_mutable, ?w)"
    by (simp add: constructor1_def default_options_def example_clock_def example_world_def
        example_instance_def example_mutable_def Date_now_def js_rem_def getBits_def bigInt_number_def
        signed_modulo_int_def Object_freeze_def new_object_def shiftLeft_def push_bit_eq_mult Let_def)
  have g: "p_generate (example_instance ?o (- 1) 0) (Some 1514790000000) (Some 3242) example_clock
             (example_mutable, ?w)
      = (Str ''397282797158399146'', example_mutable, ?w)"
    by (simp add: p_generate_eq example_pack example_fields example_opts
        default_options_fields toString_def digits.simps digit_char_numerals Let_def)
  have v: "bigInt other (Str ''397282797158399146'') = Inr 397282797158399146"
    by (simp add: bigInt_def parse_decimal_def is_digit_def from_digits_def digit_value_def)
  have d: "deconstruct other (example_instance given (- 1) 0) (Str ''397282797158399146'')
      = Inr \<lparr>timestamp = 397282797158399146 div 2 ^ 22 + epoch given,
              d_workerId = 397282797158399146 div 2 ^ (incrementBits given + processBits given)
                             mod 2 ^ workerBits given,
              d_processId = 397282797158399146 div 2 ^ incrementBits given mod 2 ^ processBits given,
              d_increment = 397282797158399146 mod 2 ^ incrementBits given\<rparr>" for given
    by (simp add: deconstruct_bigInt [OF v] deconstruct_value example_opts drop_bit_eq_div
        take_bit_eq_mod)
  show ?thesis
    by (simp add: c1 c2 g v d example_opts default_options_fields)
qed

text \<open>
  C3, at its failing input. The widths 17, 0 and 5 add up to 22, and the constructor of
  the first listing throws all the same: it reduces the process id modulo
  \<open>getBits(0) = 0\<close>, the remainder is \<open>NaN\<close>, nothing replaces it, and \<open>BigInt(NaN)\<close>
  throws. The constructor of the second listing replaces the \<open>NaN\<close> by 0 and builds the
  instance. The bit-width error itself is thrown exactly when the sum is not 22, by both
  constructors (\<open>width_error_iff\<close>).
\<close>

theorem zero_width_construction:
  "(constructor1 (default_options\<lparr>incrementBits := 17, processBits := 0, workerBits := 5\<rparr>) clk w
      :: error + Catflake \<times> 'r mutable \<times> world) = Inl (Error ''Invalid integer: NaN'')
   \<and> (case (constructor2 (default_options\<lparr>incrementBits := 17, processBits := 0, workerBits := 5\<rparr>) clk w
          :: error + Catflake \<times> 'r mutable \<times> world) of
      Inl e \<Rightarrow> None
    | Inr (c, m, w1) \<Rightarrow> Some (processId (opts c), workerId (opts c), maxIncrement (own c)))
     = Some (Num 0, Num 0, 131072)"
  by (simp add: constructor1_def constructor2_def default_options_def Date_now_def js_rem_def isNaN_def
      bigInt_number_def getBits_def signed_modulo_int_def Object_freeze_def new_object_def opts_def
      Let_def)

text \<open>
  C4. With \<open>incrementBits = 12\<close>, \<open>processBits = 5\<close>, \<open>workerBits = 5\<close> and
  \<open>epoch = 1420070400000\<close>, \<open>deconstruct\<close> applied to the decimal text
  \<open>397282797158964394\<close> returns timestamp 1514790000000, worker id 4, process id 9 and
  increment 3242. This holds for the instance either constructor builds, whatever the
  ids and the two flags are (the first constructor needs numeric ids to build one).
\<close>

theorem deconstruct_example:
  "(case (constructor2 \<lparr>epoch = 1420070400000, incrementBits = 12, processBits = 5, workerBits = 5,
            processId = pid, workerId = wid, async = a, stringify = s\<rparr> clk w
          :: error + Catflake \<times> 'r mutable \<times> world) of
      Inl e \<Rightarrow> Inl e
    | Inr (c, m, w1) \<Rightarrow> deconstruct other c (Str ''397282797158964394'')) =
   Inr \<lparr>timestamp = 1514790000000, d_workerId = 4, d_processId = 9, d_increment = 3242\<rparr>
   \<and>
   (case (constructor1 \<lparr>epoch = 1420070400000, incrementBits = 12, processBits = 5, workerBits = 5,
            processId = Num p, workerId = Num q, async = a, stringify = s\<rparr> clk w
          :: error + Catflake \<times> 'r mutable \<times> world) of
      Inl e \<Rightarrow> Inl e
    | Inr (c, m, w1) \<Rightarrow> deconstruct other c (Str ''397282797158964394'')) =
   Inr \<lparr>timestamp = 1514790000000, d_workerId = 4, d_processId = 9, d_increment = 3242\<rparr>"
  by (simp add: deconstruct_bigInt [OF example_text] deconstruct_value constructor2_def constructor1_def
      Date_now_def js_rem_def isNaN_def bigInt_number_def getBits_def
      Object_freeze_def new_object_def opts_def Let_def drop_bit_eq_div take_bit_eq_mod
      split: jsnum.splits)

text \<open>
  C5, at its failing inputs. The ids are reduced with the remainder operator, which keeps
  the sign of the dividend: a process id of \<open>-1\<close> is stored as \<open>-1\<close> by both constructors,
  not as 31. The first constructor also reduces modulo \<open>2 ^ bits - 1\<close>, so 31 is stored
  as 0 there, and it throws on an id that is not a number instead of storing 0.
\<close>

theorem ids_not_reduced:
  "(case (constructor2 (default_options\<lparr>processId := Num (- 1)\<rparr>) clk w
          :: error + Catflake \<times> 'r mutable \<times> world) of
      Inl e \<Rightarrow> None | Inr (c, m, w1) \<Rightarrow> Some (processId (opts c))) = Some (Num (- 1))
   \<and> (case (constructor1 (default_options\<lparr>processId := Num (- 1)\<rparr>) clk w
          :: error + Catflake \<times> 'r mutable \<times> world) of
      Inl e \<Rightarrow> None | Inr (c, m, w1) \<Rightarrow> Some (processId (opts c))) = Some (Num (- 1))
   \<and> (case (constructor1 (default_options\<lparr>processId := Num 31\<rparr>) clk w
          :: error + Catflake \<times> 'r mutable \<times> world) of
      Inl e \<Rightarrow> None | Inr (c, m, w1) \<Rightarrow> Some (processId (opts c))) = Some (Num 0)
   \<and> (constructor1 (default_options\<lparr>processId := NaN\<rparr>) clk w
          :: error + Catflake \<times> 'r mutable \<times> world) = Inl (Error ''Invalid integer: NaN'')"
  by (simp add: constructor1_def constructor2_def default_options_def Date_now_def js_rem_def isNaN_def
      bigInt_number_def getBits_def signed_modulo_int_def Object_freeze_def new_object_def opts_def
      Let_def)

text \<open>
  C6, at its failing input: a clock that reads the same millisecond before and after the
  sleep. The call that finds the stored increment at \<open>2 ^ incrementBits - 1\<close> within the
  stored millisecond sleeps for 2, reads the clock again and resets the increment to 0.
  Nothing compares the new reading with the old one: the increment rolls over on the
  unchanged timestamp, and the snowflake returned is the one that the first call of that
  millisecond returned. With no increment bits, the first two calls after construction
  return the same snowflake. Apart from that the critical section does what is claimed,
  whatever the clock reads (\<open>critical_section_cases\<close>).
\<close>

theorem rollover_same_timestamp:
  "(case constructor2 (default_options\<lparr>async := True\<rparr>) stalled_clock example_world of
      Inl e \<Rightarrow> None
    | Inr (c, m, w1) \<Rightarrow>
        (case critical_section c stalled_clock ([] :: nat list) (m\<lparr>locked := True\<rparr>, w1) of
           (Fulfilled f woken, m', w') \<Rightarrow>
             Some (lastTimestamp m, f, lastTimestamp m', increment m', sleeps w')
         | _ \<Rightarrow> None))
     = Some (1514790000000, Str ''397282797158400000'', 1514790000000, 0, [])
   \<and> (case constructor2 (default_options\<lparr>async := True\<rparr>) stalled_clock example_world of
      Inl e \<Rightarrow> None
    | Inr (c, m, w1) \<Rightarrow>
        (case critical_section c stalled_clock ([] :: nat list)
                (m\<lparr>increment := 4095, locked := True\<rparr>, w1) of
           (Fulfilled f woken, m', w') \<Rightarrow>
             Some (lastTimestamp m, f, lastTimestamp m', increment m', sleeps w')
         | _ \<Rightarrow> None))
     = Some (1514790000000, Str ''397282797158400000'', 1514790000000, 0, [2])
   \<and> (case constructor2 narrow_options stalled_clock example_world of
      Inl e \<Rightarrow> None
    | Inr (c, m, w1) \<Rightarrow>
        Some (returned (run c stalled_clock [Call (10 :: nat), Call 20, Timer] (started m w1))))
     = Some [(10, Big 397282797158400000), (20, Big 397282797158400000)]"
proof -
  let ?o = "default_options\<lparr>async := True\<rparr>"
  let ?w = "\<lparr>reads = Suc 0, sleeps = []\<rparr>"
  have c: "constructor2 ?o stalled_clock example_world
      = Inr (example_instance ?o 0 0, example_mutable, ?w)"
    by (simp add: constructor2_def default_options_def stalled_clock_def example_world_def
        example_instance_def example_mutable_def Date_now_def js_rem_def isNaN_def bigInt_number_def
        Object_freeze_def new_object_def shiftLeft_def Let_def)
  have n: "constructor2 narrow_options stalled_clock example_world
      = Inr (example_instance narrow_options 0 0, example_mutable, ?w)"
    by (simp add: constructor2_def narrow_options_def default_options_def stalled_clock_def
        example_world_def example_instance_def example_mutable_def Date_now_def js_rem_def isNaN_def
        bigInt_number_def Object_freeze_def new_object_def shiftLeft_def Let_def)
  have g1: "critical_section (example_instance ?o 0 0) stalled_clock ([] :: nat list)
              (\<lparr>increment = - 1, lastTimestamp = 1514790000000, locks = [], locked = True\<rparr>, ?w)
      = (Fulfilled (Str ''397282797158400000'') None,
         \<lparr>increment = 0, lastTimestamp = 1514790000000, locks = [], locked = False\<rparr>,
         \<lparr>reads = Suc (Suc 0), sleeps = []\<rparr>)"
    by (simp add: critical_section_eq generateAsync_finish_eq example_pack example_fields example_opts
        default_options_fields example_mutable_def stalled_clock_def arrive_def p_lock_def p_unlock_def
        toString_def digits.simps digit_char_numerals Let_def)
  have g2: "critical_section (example_instance ?o 0 0) stalled_clock ([] :: nat list)
              (\<lparr>increment = 4095, lastTimestamp = 1514790000000, locks = [], locked = True\<rparr>, ?w)
      = (Fulfilled (Str ''397282797158400000'') None,
         \<lparr>increment = 0, lastTimestamp = 1514790000000, locks = [], locked = False\<rparr>,
         \<lparr>reads = Suc (Suc (Suc 0)), sleeps = [2]\<rparr>)"
    by (simp add: critical_section_eq generateAsync_finish_eq example_pack example_fields example_opts
        default_options_fields example_mutable_def stalled_clock_def arrive_def p_lock_def p_unlock_def
        toString_def digits.simps digit_char_numerals Let_def)
  have r: "returned (run (example_instance narrow_options 0 0) stalled_clock
              [Call (10 :: nat), Call 20, Timer]
              (started \<lparr>increment = - 1, lastTimestamp = 1514790000000, locks = [], locked = False\<rparr> ?w))
      = [(10, Big 397282797158400000), (20, Big 397282797158400000)]"
    by (simp add: run_def started_def settle_def generate_async generateAsync_start_eq
        generateAsync_locked_eq generateAsync_slept_eq generateAsync_finish_eq p_unlock_def
        example_pack example_fields example_opts narrow_options_def default_options_fields
        example_mutable_def stalled_clock_def Let_def)
  show ?thesis
    by (simp add: c n g1 g2 r example_mutable_def)
qed

text \<open>
  C7. In sequential mode every \<open>generate\<close> call stores the library's
  \<open>(increment + 1) mod 2 ^ incrementBits\<close>, whatever the clock and the last timestamp are
  (the last timestamp is not even touched), and packs that value. From the seed \<open>-1\<close> on,
  that is the mathematical remainder, it is never negative again, and it is the increment
  field of the snowflake; so a stored increment of \<open>2 ^ incrementBits - 1\<close> gives a
  snowflake whose increment field is 0.
\<close>

theorem sequential_increment:
  assumes c: "constructor1 given clk0 w0 = Inr (c, m0, w1) \<or> constructor2 given clk0 w0 = Inr (c, m0, w1)"
    and s: "\<not> async (opts c)"
  shows "case generate c clk res (m, w) of
           (Plain f, m', w') \<Rightarrow>
              increment m' = big_mod (increment m + 1) (2 ^ incrementBits (opts c))
              \<and> lastTimestamp m' = lastTimestamp m
              \<and> bigInt other f = Inr (pack c (clk (reads w)) (increment m'))
              \<and> (- 1 \<le> increment m \<longrightarrow>
                    increment m' = (increment m + 1) mod 2 ^ incrementBits (opts c)
                    \<and> 0 \<le> increment m'
                    \<and> (case deconstruct other c f of
                         Inl e \<Rightarrow> False
                       | Inr d \<Rightarrow> d_increment d = (increment m + 1) mod 2 ^ incrementBits (opts c)
                                  \<and> (increment m = 2 ^ incrementBits (opts c) - 1 \<longrightarrow> d_increment d = 0)))
         | _ \<Rightarrow> False"
proof -
  from c obtain p q where b: "built c p q" by (rule constructed_built)
  note mx = built_maxIncrement [OF b]
  let ?i = "big_mod (increment m + 1) (2 ^ incrementBits (opts c))"
  let ?x = "pack c (clk (reads w)) ?i"
  let ?f = "if stringify (opts c) then Str (toString ?x) else Big ?x"
  have g: "generate c clk res (m, w) = (Plain ?f, m\<lparr>increment := ?i\<rparr>, w\<lparr>reads := Suc (reads w)\<rparr>)"
    using s by (simp add: generate_sequential mx Let_def)
  have v: "bigInt other ?f = Inr ?x"
    by (rule bigInt_rendered)
  have rest: "?i = (increment m + 1) mod 2 ^ incrementBits (opts c) \<and> 0 \<le> ?i
      \<and> (case deconstruct other c ?f of
            Inl e \<Rightarrow> False
          | Inr d \<Rightarrow> d_increment d = (increment m + 1) mod 2 ^ incrementBits (opts c)
                     \<and> (increment m = 2 ^ incrementBits (opts c) - 1 \<longrightarrow> d_increment d = 0))"
    if r: "- 1 \<le> increment m"
  proof -
    have e: "?i = (increment m + 1) mod 2 ^ incrementBits (opts c)"
      using r by (simp add: big_mod_nonneg)
    have range: "0 \<le> ?i" "?i < 2 ^ incrementBits (opts c)"
      by (simp_all add: e)
    from deconstruct_increment [OF b range v]
    obtain d where d: "deconstruct other c ?f = Inr d" "d_increment d = ?i" by blast
    show ?thesis
      using range(1) d e by (auto simp del: One_nat_def)
  qed
  show ?thesis
    unfolding g using v rest by simp
qed

theorem sequential_increment_witness:
  "constructor2 default_options example_clock example_world
     = Inr (example_instance default_options 0 0, example_mutable, \<lparr>reads = Suc 0, sleeps = []\<rparr>)
   \<and> \<not> async (opts (example_instance default_options 0 0))
   \<and> - 1 \<le> increment (example_mutable\<lparr>increment := 4095\<rparr>)
   \<and> generate (example_instance default_options 0 0) example_clock (0 :: nat)
        (example_mutable\<lparr>increment := 4095\<rparr>, \<lparr>reads = Suc 0, sleeps = []\<rparr>)
     = (Plain (Str ''397282797162594304''), example_mutable\<lparr>increment := 0\<rparr>,
        \<lparr>reads = Suc (Suc 0), sleeps = []\<rparr>)
   \<and> (\<forall>other. case deconstruct other (example_instance default_options 0 0) (Str ''397282797162594304'') of
         Inl e \<Rightarrow> False | Inr d \<Rightarrow> d_increment d = 0)"
proof -
  let ?c = "example_instance default_options 0 0"
  let ?m = "example_mutable\<lparr>increment := 4095\<rparr>"
  let ?w = "\<lparr>reads = Suc 0, sleeps = []\<rparr>"
  have s: "\<not> async (opts ?c)"
    by (simp add: example_opts default_options_fields)
  have g: "generate ?c example_clock (0 :: nat) (?m, ?w)
     = (Plain (Str ''397282797162594304''), example_mutable\<lparr>increment := 0\<rparr>,
        \<lparr>reads = Suc (Suc 0), sleeps = []\<rparr>)"
    using s
    by (simp add: generate_sequential example_pack example_fields example_opts default_options_fields
        example_mutable_def example_clock_def big_mod_def signed_modulo_int_def
        toString_def digits.simps digit_char_numerals Let_def)
  have "case deconstruct other ?c (Str ''397282797162594304'') of
          Inl e \<Rightarrow> False | Inr d \<Rightarrow> d_increment d = 0" for other
    using sequential_increment [where clk = example_clock and res = "0 :: nat" and m = ?m and w = ?w
        and other = other,
        OF disjI2 [OF example_constructed] s, unfolded g]
    by (auto simp: example_opts default_options_fields split: sum.splits)
  then show ?thesis
    by (simp add: example_constructed s g)
qed

text \<open>
  C8. The lock of the concurrent mode. While it is free, \<open>_lock\<close> takes it and returns
  nothing, and \<open>_generateAsync\<close> goes straight on into the critical section. While it is
  held, \<open>_lock\<close> appends the caller to the end of the queue and the call is suspended at
  \<open>await lock\<close>. \<open>_unlock\<close> with an empty queue marks the lock free; with a waiter queued
  it wakes the one at the head and the lock stays held. So the callers that arrive while
  the lock is held are woken one per release in their order of arrival, and the release
  after the last of them frees the lock. Over every sequence of events from construction
  on, the lock is held exactly while one call is in the critical section, the queue is
  empty while it is free, and the calls are served in the order they were made.
\<close>

theorem lock_state_machine:
  assumes c: "constructor1 given clk0 w0 = Inr (c, m0, w1) \<or> constructor2 given clk0 w0 = Inr (c, m0, w1)"
  shows
  "(if locked m
    then p_lock r m = (Some r, m\<lparr>locks := locks m @ [r]\<rparr>)
         \<and> generateAsync_start c clk r (m, w) = (AwaitLock, m\<lparr>locks := locks m @ [r]\<rparr>, w)
    else p_lock r m = (None, m\<lparr>locked := True\<rparr>)
         \<and> generateAsync_start c clk r (m, w) = generateAsync_locked c clk (m\<lparr>locked := True\<rparr>, w))
   \<and> (case locks m of
         [] \<Rightarrow> p_unlock m = (None, m\<lparr>locked := False\<rparr>)
       | r' # rs \<Rightarrow> p_unlock m = (Some r', m\<lparr>locks := rs\<rparr>))
   \<and> locked (snd (p_unlock m)) = (locked m \<and> locks m \<noteq> [])
   \<and> (locked m \<longrightarrow>
         arrive arrivals m = m\<lparr>locks := locks m @ arrivals\<rparr>
         \<and> releases (Suc (length (locks m @ arrivals))) (arrive arrivals m)
             = (map Some (locks m @ arrivals) @ [None], m\<lparr>locks := [], locked := False\<rparr>))
   \<and> exclusive c (run c clk evs (started m0 w1))
   \<and> service_order (run c clk evs (started m0 w1)) = callers evs"
proof -
  have fifo: "releases (Suc (length (locks m @ arrivals))) (arrive arrivals m)
             = (map Some (locks m @ arrivals) @ [None], m\<lparr>locks := [], locked := False\<rparr>)"
    if "locked m"
    using releases_queue [of "m\<lparr>locks := locks m @ arrivals\<rparr>" "locks m @ arrivals"]
    by (simp add: arrive_locked [OF that])
  note init = started_invariants [OF c]
  have sys: "exclusive c (run c clk evs (started m0 w1))"
    "service_order (run c clk evs (started m0 w1)) = callers evs"
    using exclusive_run [OF init(1)] service_order_run [OF init(1)] init(3) by simp_all
  show ?thesis
    using fifo sys
    by (simp add: p_lock_def p_unlock_def generateAsync_start_eq arrive_locked split: list.splits)
qed

theorem lock_state_machine_witness:
  "constructor2 narrow_options slow_clock example_world
     = Inr (example_instance narrow_options 0 0, example_mutable, \<lparr>reads = Suc 0, sleeps = []\<rparr>)
   \<and> locked \<lparr>increment = 0, lastTimestamp = 5, locks = [1 :: nat], locked = True\<rparr>
   \<and> p_lock 2 \<lparr>increment = 0, lastTimestamp = 5, locks = [1 :: nat], locked = True\<rparr>
       = (Some 2, \<lparr>increment = 0, lastTimestamp = 5, locks = [1, 2], locked = True\<rparr>)
   \<and> p_unlock \<lparr>increment = 0, lastTimestamp = 5, locks = [1 :: nat], locked = True\<rparr>
       = (Some 1, \<lparr>increment = 0, lastTimestamp = 5, locks = [], locked = True\<rparr>)
   \<and> releases (Suc (length [1, 2, 3 :: nat]))
         (arrive [2, 3] \<lparr>increment = 0, lastTimestamp = 5, locks = [1 :: nat], locked = True\<rparr>)
       = ([Some 1, Some 2, Some 3, None],
          \<lparr>increment = 0, lastTimestamp = 5, locks = [], locked = False\<rparr>)
   \<and> run (example_instance narrow_options 0 0) slow_clock [Call 10, Call 20, Call 30, Timer, Continue]
         (started example_mutable \<lparr>reads = Suc 0, sleeps = []\<rparr>)
       = \<lparr>mstate = \<lparr>increment = 1, lastTimestamp = 1514790000001, locks = [], locked = True\<rparr>,
          wstate = \<lparr>reads = Suc (Suc (Suc (Suc (Suc 0)))), sleeps = [2, 2]\<rparr>,
          sleeping = Some (30 :: nat), granted = None,
          returned = [(10, Big 397282797158400000), (20, Big 397282797162594304)]\<rparr>
   \<and> service_order (run (example_instance narrow_options 0 0) slow_clock
         [Call 10, Call 20, Call 30, Timer, Continue]
         (started example_mutable \<lparr>reads = Suc 0, sleeps = []\<rparr>)) = [10, 20, 30 :: nat]"
  using lock_state_machine [OF disjI2 [OF narrow_constructed],
      where m = "\<lparr>increment = 0, lastTimestamp = 5, locks = [1 :: nat], locked = True\<rparr>"
      and r = 2 and arrivals = "[2, 3]" and clk = slow_clock and w = example_world
      and evs = "[Call 10, Call 20, Call 30, Timer, Continue]"]
  by (simp del: releases.simps add: arrive_locked narrow_constructed narrow_run)

text \<open>
  C9. After construction the instance and its options object are frozen: assigning to a
  property of either, or adding one, through any sequence of such writes, leaves the
  instance as it was, an added property reads as \<open>undefined\<close>, and \<open>generate\<close> and
  \<open>deconstruct\<close> see the options fixed at construction.
\<close>

theorem frozen_instance:
  assumes c: "constructor1 given clk0 w0 = Inr (c, m0, w1) \<or> constructor2 given clk0 w0 = Inr (c, m0, w1)"
  shows "fold tampered ts c = c
     \<and> assign upd c = c \<and> assign_new k v c = c
     \<and> assign upd' (options (own c)) = options (own c) \<and> assign_new k v (options (own c)) = options (own c)
     \<and> read_added c k = Undefined \<and> read_added (options (own c)) k = Undefined
     \<and> opts (fold tampered ts c) = opts c
     \<and> generate (fold tampered ts c) clk res s = generate c clk res s
     \<and> deconstruct other (fold tampered ts c) x = deconstruct other c x"
  using constructed_frozen [OF c]
  by (simp add: fold_tampered_frozen assign_def assign_new_def read_added_def)

theorem frozen_instance_witness:
  "constructor2 default_options example_clock example_world
     = Inr (example_instance default_options 0 0, example_mutable, \<lparr>reads = Suc 0, sleeps = []\<rparr>)
   \<and> fold tampered
        [SetOwn (\<lambda>x. x\<lparr>maxIncrement := 1\<rparr>), AddOwn ''newprop'' (Boolean True),
         SetOption (\<lambda>x. x\<lparr>epoch := 0, processId := Num 7\<rparr>), AddOption ''newprop'' (Boolean True)]
        (example_instance default_options 0 0)
     = example_instance default_options 0 0
   \<and> read_added (example_instance default_options 0 0) ''newprop'' = Undefined
   \<and> read_added (options (own (example_instance default_options 0 0))) ''newprop'' = Undefined"
  using frozen_instance [OF disjI2 [OF example_constructed], where k = "''newprop''"
      and upd = id and upd' = id and v = "Boolean True" and clk = example_clock and res = "0 :: nat"
      and s = "(example_mutable, example_world)" and x = "Big 0" and ts =
      "[SetOwn (\<lambda>x. x\<lparr>maxIncrement := 1\<rparr>), AddOwn ''newprop'' (Boolean True),
        SetOption (\<lambda>x. x\<lparr>epoch := 0, processId := Num 7\<rparr>), AddOption ''newprop'' (Boolean True)]"]
  by (simp add: example_constructed)

text \<open>
  C10. The stored increment starts at the seed \<open>-1\<close> and stays below \<open>2 ^ incrementBits\<close>
  between calls. From such a state, in both modes, a returned snowflake packs the
  increment the call leaves stored, and that lies in \<open>[0, 2 ^ incrementBits)\<close>: adding it
  changes no bit above the increment field. The stored increment equals
  \<open>2 ^ incrementBits\<close> only while a concurrent call is suspended in its sleep; the stretch
  after the sleep resets it to 0 before it packs. So over every sequence of events from
  construction on, in either mode, every snowflake returned has an increment that fits.
\<close>

theorem packed_increment_in_range:
  assumes c: "constructor1 given clk0 w0 = Inr (c, m0, w1) \<or> constructor2 given clk0 w0 = Inr (c, m0, w1)"
    and ok: "increment_ok c m"
  shows "increment_ok c m0
     \<and> (case generate c clk res (m, w) of
          (Plain f, m', w') \<Rightarrow>
            increment_ok c m' \<and> 0 \<le> increment m' \<and> increment m' < 2 ^ incrementBits (opts c)
            \<and> bigInt other f = Inr (pack c (clk (reads w)) (increment m'))
        | (Promise (Fulfilled f woken), m', w') \<Rightarrow>
            increment_ok c m' \<and> 0 \<le> increment m' \<and> increment m' < 2 ^ incrementBits (opts c)
            \<and> (\<exists>t. bigInt other f = Inr (pack c t (increment m')))
        | (Promise (AwaitSleep d), m', w') \<Rightarrow> increment m' = 2 ^ incrementBits (opts c)
        | (Promise AwaitLock, m', w') \<Rightarrow> increment m' = increment m)
     \<and> (case critical_section c clk arrivals (m, w) of
          (Fulfilled f woken, m', w') \<Rightarrow>
            increment_ok c m' \<and> 0 \<le> increment m' \<and> increment m' < 2 ^ incrementBits (opts c)
            \<and> (\<exists>t. bigInt other f = Inr (pack c t (increment m')))
        | _ \<Rightarrow> False)
     \<and> (case generateAsync_slept c clk (m1, w) of
          (Fulfilled f woken, m', w') \<Rightarrow>
            increment_ok c m' \<and> increment m' = 0 \<and> (\<exists>t. bigInt other f = Inr (pack c t 0))
        | _ \<Rightarrow> False)
     \<and> (0 \<le> i \<and> i < 2 ^ incrementBits (opts c) \<longrightarrow>
          drop_bit (incrementBits (opts c)) (pack c t i) = drop_bit (incrementBits (opts c)) (pack c t 0)
          \<and> take_bit (incrementBits (opts c)) (pack c t i) = i)
     \<and> steady c (run c clk evs (started m0 w1))
     \<and> list_all (fits other c) (map snd (returned (run c clk evs (started m0 w1))))"
proof -
  from c obtain p q where b: "built c p q" by (rule constructed_built)
  have lo: "- 1 \<le> increment m"
    using ok by (simp add: increment_ok_def)
  note init = started_invariants [OF c]
  have "list_all (fits other c) (map snd (returned (started m0 w1)))"
    by (simp add: started_def)
  from steady_run [OF b init(1,2) this, where clk = clk and evs = evs]
    constructed_increment_ok [OF c]
    generate_range [OF b ok, where clk = clk and res = res and w = w and other = other]
    critical_section_range [OF b lo, where clk = clk and arrivals = arrivals and w = w and other = other]
    generateAsync_slept_range [OF b, where clk = clk and m = m1 and w = w and other = other]
    increment_field [OF b, where i = i and t = t]
  show ?thesis by blast
qed

theorem packed_increment_in_range_witness:
  "constructor2 default_options example_clock example_world
     = Inr (example_instance default_options 0 0, example_mutable, \<lparr>reads = Suc 0, sleeps = []\<rparr>)
   \<and> increment_ok (example_instance default_options 0 0) example_mutable
   \<and> generate (example_instance default_options 0 0) example_clock (0 :: nat)
        (example_mutable, \<lparr>reads = Suc 0, sleeps = []\<rparr>)
     = (Plain (Str ''397282797162594304''), example_mutable\<lparr>increment := 0\<rparr>,
        \<lparr>reads = Suc (Suc 0), sleeps = []\<rparr>)
   \<and> increment_ok (example_instance default_options 0 0) (example_mutable\<lparr>increment := 0\<rparr>)
   \<and> (\<forall>other. bigInt other (Str ''397282797162594304'')
     = Inr (pack (example_instance default_options 0 0) (example_clock (Suc 0)) 0))
   \<and> returned (run (example_instance default_options 0 0) example_clock [Call 10, Call 20]
         (started example_mutable \<lparr>reads = Suc 0, sleeps = []\<rparr>))
     = [(10 :: nat, Str ''397282797162594304''), (20, Str ''397282797166788609'')]
   \<and> (\<forall>other. fits other (example_instance default_options 0 0) (Str ''397282797162594304''))
   \<and> (\<forall>other. fits other (example_instance default_options 0 0) (Str ''397282797166788609''))"
proof -
  let ?c = "example_instance default_options 0 0"
  let ?w = "\<lparr>reads = Suc 0, sleeps = []\<rparr>"
  have s: "\<not> async (opts ?c)"
    by (simp add: example_opts default_options_fields)
  have ok: "increment_ok ?c example_mutable"
    by (simp add: increment_ok_def example_fields default_options_fields example_mutable_def)
  have g: "generate ?c example_clock (0 :: nat) (example_mutable, ?w)
     = (Plain (Str ''397282797162594304''), example_mutable\<lparr>increment := 0\<rparr>,
        \<lparr>reads = Suc (Suc 0), sleeps = []\<rparr>)"
    using s
    by (simp add: generate_sequential example_pack example_fields example_opts default_options_fields
        example_mutable_def example_clock_def big_mod_def signed_modulo_int_def
        toString_def digits.simps digit_char_numerals Let_def)
  have r: "returned (run ?c example_clock [Call 10, Call 20] (started example_mutable ?w))
     = [(10 :: nat, Str ''397282797162594304''), (20, Str ''397282797166788609'')]"
    using s
    by (simp add: run_def started_def generate_sequential example_pack example_fields example_opts
        default_options_fields example_mutable_def example_clock_def big_mod_def
        signed_modulo_int_def toString_def digits.simps digit_char_numerals Let_def)
  have "increment_ok ?c (example_mutable\<lparr>increment := 0\<rparr>)
     \<and> bigInt other (Str ''397282797162594304'') = Inr (pack ?c (example_clock (Suc 0)) 0)
     \<and> fits other ?c (Str ''397282797162594304'')
     \<and> fits other ?c (Str ''397282797166788609'')" for other
    using packed_increment_in_range [where clk = example_clock and res = "0 :: nat"
        and m = example_mutable and w = ?w and arrivals = "[]" and ?m1.0 = example_mutable
        and i = 0 and t = 0 and evs = "[Call 10, Call 20]" and other = other,
        OF disjI2 [OF example_constructed] ok, unfolded g r]
    by simp
  then show ?thesis
    by (simp add: example_constructed ok g r)
qed

end
